theory Spec2Isabelle
  imports Complex_Main "HOL-Library.AList" "HOL-Library.Sublist"
begin

section \<open>Data model of populate_database.py\<close>

text \<open>
  The script stores knowledge-graph results in two tables and has two flows over them:
  the daily population (\<open>main\<close>) and the backfill (\<open>backfill_data\<close>, started by
  \<open>run_backfill\<close>). The model below follows the script statement by statement.

  Conventions of the embedding:
  \<^item> A Python \<open>date\<close> is its proleptic Gregorian ordinal (\<open>date.toordinal()\<close>), an \<open>int\<close>
    between 1 and \<open>date_max\<close>.
  \<^item> A score is a Python float, an IEEE double: a value of \<open>pyfloat\<close>, which is a finite
    number (held as the rational it denotes), an infinity or a NaN. Every float operation
    computes the exact result and rounds it to the nearest double, ties to even, and to an
    infinity on overflow (\<open>to_double\<close>). The two zeros are one value: they are equal in
    Python and both are falsy.
  \<^item> A JSON payload is a value of the datatype \<open>json\<close>; a Python \<open>dict\<close> keeps its
    insertion order, so an object is an association list. Python's \<open>None\<close> is \<open>JNull\<close>.
  \<^item> The columns \<open>id\<close>, \<open>created_at\<close> and \<open>updated_at\<close> of a result row are assigned by
    the database server; the script neither reads nor writes them and they are left out.
  \<^item> Console output (\<open>print\<close>) is not modelled.
  \<^item> A raised exception is a value of \<open>py_error\<close>; a function that can raise returns
    \<open>py_error + 'a\<close>.
\<close>

datatype pyfloat = Finite rat | PosInf | NegInf | NaN

datatype json =
    JNull
  | JBool bool
  | JNum pyfloat
  | JStr string
  | JArr "json list"
  | JObj "(string \<times> json) list"

datatype req_exception = ConnectionError | Timeout | TooManyRedirects | HTTPError | JSONDecodeError

datatype py_error =
    RequestException req_exception
  | TypeError
  | AttributeError
  | KeyError
  | ValueError
  | OverflowError
  | NoSuchTable
  | DataError

text \<open>How a run of a flow ends: it ran to its last statement, it returned early, or an
  exception left it.\<close>

datatype outcome = Finished | Aborted | Raised py_error

record entity =
  ent_id :: nat
  ent_name :: string

record kg_result =
  entity_id :: nat
  result_score :: "pyfloat option"
  name :: "string option"
  description :: "string option"
  article_body :: "string option"
  raw_json :: json
  date :: int

text \<open>The database: each table is absent (\<open>None\<close>) or holds its rows in insertion order.\<close>

record database =
  entities_tbl :: "entity list option"
  results_tbl :: "kg_result list option"

text \<open>A session is the database as committed plus the rows staged by \<open>session.add\<close>
  since the last commit.\<close>

record session =
  db :: database
  pending :: "kg_result list"

definition date_max :: int where
  "date_max = 3652059"

definition rows_of :: "database \<Rightarrow> kg_result list" where
  "rows_of d = (case results_tbl d of None \<Rightarrow> [] | Some rs \<Rightarrow> rs)"

definition ents_of :: "database \<Rightarrow> entity list" where
  "ents_of d = (case entities_tbl d of None \<Rightarrow> [] | Some es \<Rightarrow> es)"

section \<open>Python primitives used by the script\<close>

text \<open>\<open>if s\<close> for a string that may be \<open>None\<close> (an environment variable).\<close>

definition str_truthy :: "string option \<Rightarrow> bool" where
  "str_truthy s = (case s of None \<Rightarrow> False | Some v \<Rightarrow> v \<noteq> [])"

text \<open>Truth value of a float: every float but zero is truthy, a NaN too.\<close>

fun float_truthy :: "pyfloat \<Rightarrow> bool" where
  "float_truthy (Finite q) = (q \<noteq> 0)"
| "float_truthy _ = True"

text \<open>Truth value of a JSON value as Python sees it.\<close>

fun json_truthy :: "json \<Rightarrow> bool" where
  "json_truthy JNull = False"
| "json_truthy (JBool b) = b"
| "json_truthy (JNum x) = float_truthy x"
| "json_truthy (JStr s) = (s \<noteq> [])"
| "json_truthy (JArr xs) = (xs \<noteq> [])"
| "json_truthy (JObj kvs) = (kvs \<noteq> [])"

text \<open>\<open>obj[k] = v\<close>: only a dict accepts a string key; the key keeps its place when it
  is already there and is appended otherwise.\<close>

fun setitem :: "json \<Rightarrow> string \<Rightarrow> json \<Rightarrow> py_error + json" where
  "setitem (JObj kvs) k v = Inr (JObj (AList.update k v kvs))"
| "setitem _ k v = Inl TypeError"

text \<open>Reading a field of a payload: \<open>None\<close> when the payload is not an object or has
  no such key.\<close>

fun field :: "json \<Rightarrow> string \<Rightarrow> json option" where
  "field (JObj kvs) k = map_of kvs k"
| "field _ k = None"

fun is_object :: "json \<Rightarrow> bool" where
  "is_object (JObj kvs) = True"
| "is_object _ = False"

text \<open>\<open>copy.deepcopy\<close> yields an equal value that shares nothing with its argument; on
  values it is the identity.\<close>

definition deepcopy :: "json \<Rightarrow> json" where
  "deepcopy j = j"

text \<open>Rounding to the nearest integer, ties to the even one.\<close>

definition round_half_even :: "rat \<Rightarrow> int" where
  "round_half_even q =
     (let f = \<lfloor>q\<rfloor>; d = q - of_int f
      in if d < 1 / 2 then f
         else if 1 / 2 < d then f + 1
         else if even f then f else f + 1)"

text \<open>The number of binary digits of a natural number (\<open>int.bit_length\<close>).\<close>

fun bit_length :: "nat \<Rightarrow> nat" where
  "bit_length n = (if n = 0 then 0 else Suc (bit_length (n div 2)))"

declare bit_length.simps [simp del]

text \<open>The binary exponent of a positive rational: the \<open>e\<close> with \<open>2^e \<le> q < 2^(e+1)\<close>.\<close>

definition ilog2 :: "rat \<Rightarrow> int" where
  "ilog2 q =
     (if 1 \<le> q then int (bit_length (nat \<lfloor>q\<rfloor>)) - 1
      else - int (bit_length (nat (\<lceil>1 / q\<rceil> - 1))))"

text \<open>Rounding an exact result to a double: 53 significant bits, exponent at least
  -1022 (below it the spacing stays \<open>2^-1074\<close>), ties to even, an infinity when the rounded
  value reaches \<open>2^1024\<close>.\<close>

definition to_double :: "rat \<Rightarrow> pyfloat" where
  "to_double q =
     (if q = 0 then Finite 0
      else
        (let e = max (ilog2 \<bar>q\<bar>) (- 1022);
             ulp = 2 powi (e - 52);
             v = of_int (round_half_even (q / ulp)) * ulp
         in if 2 ^ 1024 \<le> \<bar>v\<bar> then (if 0 < q then PosInf else NegInf) else Finite v))"

text \<open>\<open>x + y\<close> and \<open>x * y\<close> on floats.\<close>

fun fadd :: "pyfloat \<Rightarrow> pyfloat \<Rightarrow> pyfloat" where
  "fadd (Finite a) (Finite b) = to_double (a + b)"
| "fadd NaN y = NaN"
| "fadd x NaN = NaN"
| "fadd PosInf NegInf = NaN"
| "fadd NegInf PosInf = NaN"
| "fadd PosInf y = PosInf"
| "fadd NegInf y = NegInf"
| "fadd x PosInf = PosInf"
| "fadd x NegInf = NegInf"

fun fmul :: "pyfloat \<Rightarrow> pyfloat \<Rightarrow> pyfloat" where
  "fmul (Finite a) (Finite b) = to_double (a * b)"
| "fmul NaN y = NaN"
| "fmul x NaN = NaN"
| "fmul (Finite a) PosInf = (if a = 0 then NaN else if 0 < a then PosInf else NegInf)"
| "fmul (Finite a) NegInf = (if a = 0 then NaN else if 0 < a then NegInf else PosInf)"
| "fmul PosInf (Finite b) = (if b = 0 then NaN else if 0 < b then PosInf else NegInf)"
| "fmul NegInf (Finite b) = (if b = 0 then NaN else if 0 < b then NegInf else PosInf)"
| "fmul PosInf PosInf = PosInf"
| "fmul NegInf NegInf = PosInf"
| "fmul PosInf NegInf = NegInf"
| "fmul NegInf PosInf = NegInf"

text \<open>\<open>round(x, ndigits)\<close> on a float: an infinity or a NaN is returned as it is; for more
  than 323 digits so is \<open>x\<close>; otherwise the exact value of \<open>x\<close> is rounded to \<open>ndigits\<close>
  decimals, ties to even, and the decimal is converted to the nearest double, with
  \<open>OverflowError\<close> when that is an infinity.\<close>

fun py_round :: "pyfloat \<Rightarrow> nat \<Rightarrow> py_error + pyfloat" where
  "py_round (Finite q) ndigits =
     (if 323 < ndigits then Inr (Finite q)
      else
        (case to_double (of_int (round_half_even (q * 10 ^ ndigits)) / 10 ^ ndigits) of
           Finite v \<Rightarrow> Inr (Finite v)
         | _ \<Rightarrow> Inl OverflowError))"
| "py_round x ndigits = Inr x"

text \<open>The literal \<open>0.05\<close> is the double nearest to 1/20. A value \<open>u\<close> is in the range of
  \<open>random.uniform(-0.05, 0.05)\<close> when \<open>-0.05 <= u <= 0.05\<close> holds of these floats.\<close>

definition double_0_05 :: rat where
  "double_0_05 = 3602879701896397 / 72057594037927936"

definition uniform_range :: "pyfloat \<Rightarrow> bool" where
  "uniform_range u =
     (case u of Finite q \<Rightarrow> - double_0_05 \<le> q \<and> q \<le> double_0_05 | _ \<Rightarrow> False)"

text \<open>\<open>d + timedelta(days=1)\<close> raises \<open>OverflowError\<close> past \<open>date.max\<close>.\<close>

definition date_succ :: "int \<Rightarrow> py_error + int" where
  "date_succ d = (if date_max < d + 1 then Inl OverflowError else Inr (d + 1))"

section \<open>Queries\<close>

text \<open>A query on a table that does not exist raises. The session flushes before a query
  (SQLAlchemy's default \<open>autoflush\<close>), so a query also sees the staged rows.\<close>

definition query_results :: "session \<Rightarrow> py_error + kg_result list" where
  "query_results s =
     (case results_tbl (db s) of
        None \<Rightarrow> Inl NoSuchTable
      | Some rs \<Rightarrow> Inr (rs @ pending s))"

definition commit :: "session \<Rightarrow> session" where
  "commit s =
     \<lparr>db = (db s)\<lparr>results_tbl := map_option (\<lambda>rs. rs @ pending s) (results_tbl (db s))\<rparr>,
      pending = []\<rparr>"

section \<open>The backfill flow\<close>

text \<open>\<open>round(original_score * modifier, 4) if original_score else None\<close>\<close>

definition new_score_of :: "pyfloat option \<Rightarrow> pyfloat \<Rightarrow> py_error + pyfloat option" where
  "new_score_of original_score modifier =
     (case original_score of
        None \<Rightarrow> Inr None
      | Some x \<Rightarrow>
          if float_truthy x then
            (case py_round (fmul x modifier) 4 of
               Inl e \<Rightarrow> Inl e
             | Inr v \<Rightarrow> Inr (Some v))
          else Inr None)"

text \<open>The body of the inner loop (lines 182 to 201): the new row for one source row, with
  \<open>u\<close> the value that \<open>random.uniform(-0.05, 0.05)\<close> returned.\<close>

definition backfill_row :: "pyfloat \<Rightarrow> int \<Rightarrow> kg_result \<Rightarrow> py_error + kg_result" where
  "backfill_row u current_date source_result =
     (let new_raw_json = deepcopy (raw_json source_result);
          original_score = result_score source_result;
          modifier = fadd (Finite 1) u
      in (case new_score_of original_score modifier of
            Inl e \<Rightarrow> Inl e
          | Inr new_score \<Rightarrow>
              (case (case new_score of
                       None \<Rightarrow> Inr new_raw_json
                     | Some ns \<Rightarrow> setitem new_raw_json ''resultScore'' (JNum ns)) of
                 Inl e \<Rightarrow> Inl e
               | Inr j \<Rightarrow>
                   Inr \<lparr>entity_id = entity_id source_result,
                        result_score = new_score,
                        name = name source_result,
                        description = description source_result,
                        article_body = article_body source_result,
                        raw_json = j,
                        date = current_date\<rparr>)))"

text \<open>The inner loop over the source rows. \<open>rng k\<close> is the value of the \<open>k\<close>-th call of
  \<open>random.uniform\<close> in the run; the counter is threaded with the staged rows.\<close>

fun add_copies :: "(nat \<Rightarrow> pyfloat) \<Rightarrow> int \<Rightarrow> kg_result list \<Rightarrow> kg_result list \<times> nat
    \<Rightarrow> py_error + kg_result list \<times> nat" where
  "add_copies rng current_date [] (pend, k) = Inr (pend, k)"
| "add_copies rng current_date (source_result # rest) (pend, k) =
     (case backfill_row (rng k) current_date source_result of
        Inl e \<Rightarrow> Inl e
      | Inr new_result \<Rightarrow> add_copies rng current_date rest (pend @ [new_result], Suc k))"

text \<open>The \<open>while current_date <= end_date\<close> loop (lines 169 to 205).\<close>

function backfill_dates :: "(nat \<Rightarrow> pyfloat) \<Rightarrow> kg_result list \<Rightarrow> int \<Rightarrow> int \<Rightarrow> session \<times> nat
    \<Rightarrow> py_error + session \<times> nat" where
  "backfill_dates rng source_results end_date current_date (s, k) =
     (if current_date \<le> end_date then
        (case query_results s of
           Inl e \<Rightarrow> Inl e
         | Inr rs \<Rightarrow>
             (case find (\<lambda>r. date r = current_date) rs of
                Some existing_result \<Rightarrow>
                  (case date_succ current_date of
                     Inl e \<Rightarrow> Inl e
                   | Inr next_date \<Rightarrow>
                       backfill_dates rng source_results end_date next_date (s, k))
              | None \<Rightarrow>
                  (case add_copies rng current_date source_results (pending s, k) of
                     Inl e \<Rightarrow> Inl e
                   | Inr (pend, k') \<Rightarrow>
                       (case date_succ current_date of
                          Inl e \<Rightarrow> Inl e
                        | Inr next_date \<Rightarrow>
                            backfill_dates rng source_results end_date next_date
                              (s\<lparr>pending := pend\<rparr>, k')))))
      else Inr (s, k))"
  by pat_completeness auto
termination
  by (relation "measure (\<lambda>(rng, source_results, end_date, current_date, sk).
        nat (end_date + 1 - current_date))")
     (auto simp: date_succ_def split: if_splits)

text \<open>\<open>backfill_data(session, source_date_str, start_date_str, end_date_str)\<close>.
  \<open>fromisoformat\<close> is \<open>date.fromisoformat\<close> of the standard library, taken as a parameter:
  it returns the ordinal of the date or raises \<open>ValueError\<close>. The result is how the call
  ended and the database it leaves: rows staged but not committed are lost when an
  exception leaves the function.\<close>

definition backfill_data :: "(string \<Rightarrow> py_error + int) \<Rightarrow> (nat \<Rightarrow> pyfloat) \<Rightarrow> database
    \<Rightarrow> string \<Rightarrow> string \<Rightarrow> string \<Rightarrow> outcome \<times> database" where
  "backfill_data fromisoformat rng d source_date_str start_date_str end_date_str =
     (case fromisoformat source_date_str of
        Inl e \<Rightarrow> (Raised e, d)
      | Inr source_date \<Rightarrow>
     (case fromisoformat start_date_str of
        Inl e \<Rightarrow> (Raised e, d)
      | Inr start_date \<Rightarrow>
     (case fromisoformat end_date_str of
        Inl e \<Rightarrow> (Raised e, d)
      | Inr end_date \<Rightarrow>
     (case query_results \<lparr>db = d, pending = []\<rparr> of
        Inl e \<Rightarrow> (Raised e, d)
      | Inr rs \<Rightarrow>
          (let source_results = filter (\<lambda>r. date r = source_date) rs in
           if source_results = [] then (Aborted, d)
           else
             (case backfill_dates rng source_results end_date start_date
                     (\<lparr>db = d, pending = []\<rparr>, 0) of
                Inl e \<Rightarrow> (Raised e, d)
              | Inr (s', k) \<Rightarrow> (Finished, db (commit s'))))))))"

text \<open>\<open>run_backfill()\<close>, the only call the script makes when it is run
  (\<open>main()\<close> is commented out under \<open>__main__\<close>). It opens a session on the database and
  calls \<open>backfill_data\<close> with the three hardcoded dates; it does not call
  \<open>Base.metadata.create_all\<close>.\<close>

definition run_backfill :: "string option \<Rightarrow> (string \<Rightarrow> py_error + int) \<Rightarrow> (nat \<Rightarrow> pyfloat)
    \<Rightarrow> database \<Rightarrow> outcome \<times> database" where
  "run_backfill DATABASE_URL fromisoformat rng d =
     (if \<not> str_truthy DATABASE_URL then (Aborted, d)
      else backfill_data fromisoformat rng d ''2025-07-08'' ''2025-06-29'' ''2025-07-07'')"

section \<open>The API client\<close>

text \<open>The request parameters and the response of \<open>requests.get\<close>. The body of a response
  is its parsed JSON, or \<open>None\<close> when it is not JSON. \<open>requests.get\<close> itself is a
  parameter \<open>requests_get\<close> of the model: it returns a response or raises.\<close>

record params =
  p_query :: string
  p_key :: string
  p_limit :: nat

record response =
  status_code :: nat
  body :: "json option"

text \<open>\<open>response.raise_for_status()\<close>: an \<open>HTTPError\<close> for a 4xx or 5xx status.\<close>

definition raise_for_status :: "response \<Rightarrow> py_error + unit" where
  "raise_for_status r =
     (if 400 \<le> status_code r \<and> status_code r < 600 then Inl (RequestException HTTPError)
      else Inr ())"

text \<open>\<open>response.json()\<close>: the \<open>JSONDecodeError\<close> of requests is a \<open>RequestException\<close>.\<close>

definition response_json :: "response \<Rightarrow> py_error + json" where
  "response_json r =
     (case body r of None \<Rightarrow> Inl (RequestException JSONDecodeError) | Some j \<Rightarrow> Inr j)"

text \<open>\<open>fetch_entity_data(entity_name)\<close>. The result is what the call returns (or the
  exception that leaves it) and the list of requests it issued.\<close>

definition fetch_entity_data :: "string option \<Rightarrow> (params \<Rightarrow> py_error + response) \<Rightarrow> string
    \<Rightarrow> (py_error + json) \<times> params list" where
  "fetch_entity_data API_KEY requests_get entity_name =
     (case API_KEY of
        None \<Rightarrow> (Inr JNull, [])
      | Some k \<Rightarrow>
          if k = [] then (Inr JNull, [])
          else
            (let ps = \<lparr>p_query = entity_name, p_key = k, p_limit = 3\<rparr>;
                 attempt =
                   (case requests_get ps of
                      Inl e \<Rightarrow> Inl e
                    | Inr r \<Rightarrow>
                        (case raise_for_status r of
                           Inl e \<Rightarrow> Inl e
                         | Inr u \<Rightarrow> response_json r))
             in (case attempt of
                   Inl (RequestException e) \<Rightarrow> Inr JNull
                 | Inl e \<Rightarrow> Inl e
                 | Inr j \<Rightarrow> Inr j,
                 [ps])))"

section \<open>The population flow\<close>

definition ENTITIES :: "string list" where
  "ENTITIES =
     [''ClutchPoints'', ''Yahoo Sports'', ''The Sporting News'', ''Bleacher Report'',
      ''FanSided'', ''ESPN'', ''CBS Sports'', ''Sports Illustrated'', ''FOX Sports'',
      ''SB Nation'', ''The Athletic'', ''Essentially Sports'']"

text \<open>\<open>Base.metadata.create_all(engine)\<close> creates each table that is absent, empty.\<close>

definition create_all :: "database \<Rightarrow> database" where
  "create_all d = \<lparr>entities_tbl = Some (ents_of d), results_tbl = Some (rows_of d)\<rparr>"

text \<open>\<open>k in x\<close> for a string \<open>k\<close>.\<close>

fun json_contains :: "json \<Rightarrow> string \<Rightarrow> py_error + bool" where
  "json_contains (JObj kvs) k = Inr (map_of kvs k \<noteq> None)"
| "json_contains (JArr xs) k = Inr (JStr k \<in> set xs)"
| "json_contains (JStr s) k = Inr (sublist k s)"
| "json_contains _ k = Inl TypeError"

text \<open>\<open>x[k]\<close> for a string \<open>k\<close>.\<close>

fun getitem :: "json \<Rightarrow> string \<Rightarrow> py_error + json" where
  "getitem (JObj kvs) k = (case map_of kvs k of None \<Rightarrow> Inl KeyError | Some v \<Rightarrow> Inr v)"
| "getitem _ k = Inl TypeError"

text \<open>\<open>for item in x\<close>: the elements of a list, the keys of a dict, the characters of a
  string.\<close>

fun py_iter :: "json \<Rightarrow> py_error + json list" where
  "py_iter (JArr xs) = Inr xs"
| "py_iter (JObj kvs) = Inr (map (\<lambda>kv. JStr (fst kv)) kvs)"
| "py_iter (JStr s) = Inr (map (\<lambda>c. JStr [c]) s)"
| "py_iter _ = Inl TypeError"

text \<open>\<open>x.get(k, default)\<close>: only a dict has \<open>get\<close>.\<close>

fun py_get :: "json \<Rightarrow> string \<Rightarrow> json \<Rightarrow> py_error + json" where
  "py_get (JObj kvs) k dflt = Inr (case map_of kvs k of None \<Rightarrow> dflt | Some v \<Rightarrow> v)"
| "py_get _ k dflt = Inl AttributeError"

text \<open>A result object as \<open>main\<close> constructs it, before the flush: the attributes hold
  whatever the API response held.\<close>

record new_result =
  nr_entity_id :: nat
  nr_result_score :: json
  nr_name :: json
  nr_description :: json
  nr_article_body :: json
  nr_raw_json :: json
  nr_date :: int

text \<open>The database driver turns an attribute into a column value when the row is
  inserted, or refuses it. The driver is not part of the script: its two conversions are
  parameters of the model.\<close>

record driver =
  float_column :: "json \<Rightarrow> py_error + pyfloat option"
  text_column :: "json \<Rightarrow> py_error + string option"

definition insert_row :: "driver \<Rightarrow> new_result \<Rightarrow> py_error + kg_result" where
  "insert_row drv nr =
     (case float_column drv (nr_result_score nr) of Inl e \<Rightarrow> Inl e | Inr sc \<Rightarrow>
     (case text_column drv (nr_name nr) of Inl e \<Rightarrow> Inl e | Inr nm \<Rightarrow>
     (case text_column drv (nr_description nr) of Inl e \<Rightarrow> Inl e | Inr ds \<Rightarrow>
     (case text_column drv (nr_article_body nr) of Inl e \<Rightarrow> Inl e | Inr ab \<Rightarrow>
        Inr \<lparr>entity_id = nr_entity_id nr, result_score = sc, name = nm, description = ds,
             article_body = ab, raw_json = nr_raw_json nr, date = nr_date nr\<rparr>))))"

text \<open>Mapping a function that can raise over a list stops at the first exception.\<close>

fun map_raise :: "('a \<Rightarrow> py_error + 'b) \<Rightarrow> 'a list \<Rightarrow> py_error + 'b list" where
  "map_raise f [] = Inr []"
| "map_raise f (x # xs) =
     (case f x of
        Inl e \<Rightarrow> Inl e
      | Inr y \<Rightarrow> (case map_raise f xs of Inl e \<Rightarrow> Inl e | Inr ys \<Rightarrow> Inr (y # ys)))"

text \<open>The body of the loop over the items (lines 125 to 136).\<close>

definition result_of_item :: "nat \<Rightarrow> int \<Rightarrow> json \<Rightarrow> py_error + new_result" where
  "result_of_item eid today item =
     (case py_get item ''result'' (JObj []) of Inl e \<Rightarrow> Inl e | Inr result \<Rightarrow>
     (case py_get result ''detailedDescription'' (JObj []) of Inl e \<Rightarrow> Inl e | Inr detailed_desc \<Rightarrow>
     (case py_get item ''resultScore'' JNull of Inl e \<Rightarrow> Inl e | Inr sc \<Rightarrow>
     (case py_get result ''name'' JNull of Inl e \<Rightarrow> Inl e | Inr nm \<Rightarrow>
     (case py_get result ''description'' JNull of Inl e \<Rightarrow> Inl e | Inr ds \<Rightarrow>
     (case py_get detailed_desc ''articleBody'' JNull of Inl e \<Rightarrow> Inl e | Inr ab \<Rightarrow>
        Inr \<lparr>nr_entity_id = eid, nr_result_score = sc, nr_name = nm, nr_description = ds,
             nr_article_body = ab, nr_raw_json = item, nr_date = today\<rparr>))))))"

text \<open>\<open>api_data and 'itemListElement' in api_data\<close>\<close>

definition has_item_list :: "json \<Rightarrow> py_error + bool" where
  "has_item_list api_data =
     (if json_truthy api_data then json_contains api_data ''itemListElement'' else Inr False)"

text \<open>Lines 124 to 139: the rows that the commit inserts for one entity.\<close>

definition store_items :: "driver \<Rightarrow> nat \<Rightarrow> int \<Rightarrow> json \<Rightarrow> py_error + kg_result list" where
  "store_items drv eid today api_data =
     (case getitem api_data ''itemListElement'' of Inl e \<Rightarrow> Inl e | Inr v \<Rightarrow>
     (case py_iter v of Inl e \<Rightarrow> Inl e | Inr items \<Rightarrow>
     (case map_raise (result_of_item eid today) items of Inl e \<Rightarrow> Inl e | Inr staged \<Rightarrow>
        map_raise (insert_row drv) staged)))"

text \<open>The id the database gives a new entity: one that is not in the table.\<close>

definition fresh_id :: "entity list \<Rightarrow> nat" where
  "fresh_id es = Suc (fold max (map ent_id es) 0)"

text \<open>Lines 103 to 108: the entity row of a name, created and committed when the table
  has none.\<close>

definition get_or_create :: "string \<Rightarrow> database \<Rightarrow> py_error + entity \<times> database" where
  "get_or_create entity_name d =
     (case entities_tbl d of
        None \<Rightarrow> Inl NoSuchTable
      | Some es \<Rightarrow>
          (case find (\<lambda>e. ent_name e = entity_name) es of
             Some e \<Rightarrow> Inr (e, d)
           | None \<Rightarrow>
               Inr (\<lparr>ent_id = fresh_id es, ent_name = entity_name\<rparr>,
                    d\<lparr>entities_tbl :=
                        Some (es @ [\<lparr>ent_id = fresh_id es, ent_name = entity_name\<rparr>])\<rparr>)))"

text \<open>Lines 120 to 142: fetch, and store what came back. \<open>rs\<close> is the result table as
  the existence check read it.\<close>

definition fetch_and_store :: "string option \<Rightarrow> driver \<Rightarrow> (params \<Rightarrow> py_error + response) \<Rightarrow> int
    \<Rightarrow> string \<Rightarrow> entity \<Rightarrow> kg_result list \<Rightarrow> database \<times> params list
    \<Rightarrow> py_error option \<times> database \<times> params list" where
  "fetch_and_store API_KEY drv requests_get today entity_name ent rs ds =
     (let fetched = fetch_entity_data API_KEY requests_get entity_name;
          sent' = snd ds @ snd fetched
      in (case fst fetched of
            Inl e \<Rightarrow> (Some e, fst ds, sent')
          | Inr api_data \<Rightarrow>
              (case has_item_list api_data of
                 Inl e \<Rightarrow> (Some e, fst ds, sent')
               | Inr b \<Rightarrow>
                   (if b then
                      (case store_items drv (ent_id ent) today api_data of
                         Inl e \<Rightarrow> (Some e, fst ds, sent')
                       | Inr rows \<Rightarrow>
                           (None, (fst ds)\<lparr>results_tbl := Some (rs @ rows)\<rparr>, sent'))
                    else (None, fst ds, sent')))))"

text \<open>One round of the loop over \<open>ENTITIES\<close> (lines 102 to 142). The result is the
  exception that left it, if any, the database as committed and the requests issued so
  far.\<close>

definition populate_entity :: "string option \<Rightarrow> driver \<Rightarrow> (params \<Rightarrow> py_error + response) \<Rightarrow> int
    \<Rightarrow> string \<Rightarrow> database \<times> params list \<Rightarrow> py_error option \<times> database \<times> params list" where
  "populate_entity API_KEY drv requests_get today entity_name ds =
     (case get_or_create entity_name (fst ds) of
        Inl e \<Rightarrow> (Some e, fst ds, snd ds)
      | Inr (ent, d1) \<Rightarrow>
          (case results_tbl d1 of
             None \<Rightarrow> (Some NoSuchTable, d1, snd ds)
           | Some rs \<Rightarrow>
               (case find (\<lambda>r. entity_id r = ent_id ent \<and> date r = today) rs of
                  Some existing_result \<Rightarrow> (None, d1, snd ds)
                | None \<Rightarrow>
                    fetch_and_store API_KEY drv requests_get today entity_name ent rs
                      (d1, snd ds))))"

fun populate :: "string option \<Rightarrow> driver \<Rightarrow> (params \<Rightarrow> py_error + response) \<Rightarrow> int
    \<Rightarrow> string list \<Rightarrow> database \<times> params list \<Rightarrow> outcome \<times> database \<times> params list" where
  "populate API_KEY drv requests_get today [] (d, sent) = (Finished, d, sent)"
| "populate API_KEY drv requests_get today (entity_name # rest) (d, sent) =
     (case populate_entity API_KEY drv requests_get today entity_name (d, sent) of
        (Some e, d', sent') \<Rightarrow> (Raised e, d', sent')
      | (None, d', sent') \<Rightarrow> populate API_KEY drv requests_get today rest (d', sent'))"

text \<open>\<open>main()\<close>, with \<open>today\<close> the value of \<open>date.today()\<close>.\<close>

definition main :: "string option \<Rightarrow> string option \<Rightarrow> driver \<Rightarrow> (params \<Rightarrow> py_error + response)
    \<Rightarrow> int \<Rightarrow> database \<Rightarrow> outcome \<times> database \<times> params list" where
  "main API_KEY DATABASE_URL drv requests_get today d =
     (if \<not> str_truthy API_KEY then (Aborted, d, [])
      else if \<not> str_truthy DATABASE_URL then (Aborted, d, [])
      else populate API_KEY drv requests_get today ENTITIES (create_all d, []))"

section \<open>Vocabulary of the statements\<close>

text \<open>The dates of a range on which no row of \<open>rs\<close> is stored: the dates the backfill
  does not skip.\<close>

definition open_dates :: "kg_result list \<Rightarrow> int \<Rightarrow> int \<Rightarrow> int list" where
  "open_dates rs start_date end_date =
     filter (\<lambda>d. find (\<lambda>r. date r = d) rs = None) [start_date..end_date]"

text \<open>The rows of the source date, in table order, and the rows a run added.\<close>

definition source_rows :: "database \<Rightarrow> int \<Rightarrow> kg_result list" where
  "source_rows d source_date = filter (\<lambda>r. date r = source_date) (rows_of d)"

definition inserted :: "database \<Rightarrow> database \<Rightarrow> kg_result list" where
  "inserted d d' = drop (length (rows_of d)) (rows_of d')"

text \<open>What the population flow keeps true of an entity \<open>e\<close> named \<open>entity_name\<close> that
  has a result row for \<open>today\<close>: both tables exist, the ids of the entity table are
  distinct (its primary key), the lookup by name finds \<open>e\<close>, and the existence check
  for \<open>e\<close> and \<open>today\<close> finds a row.\<close>

definition skip_inv :: "string \<Rightarrow> entity \<Rightarrow> int \<Rightarrow> database \<Rightarrow> bool" where
  "skip_inv entity_name e today d \<longleftrightarrow>
     entities_tbl d \<noteq> None \<and> results_tbl d \<noteq> None \<and>
     distinct (map ent_id (ents_of d)) \<and>
     find (\<lambda>x. ent_name x = entity_name) (ents_of d) = Some e \<and>
     find (\<lambda>r. entity_id r = ent_id e \<and> date r = today) (rows_of d) \<noteq> None"

section \<open>Example data\<close>

text \<open>\<open>date.fromisoformat\<close> on the date strings used below: 2025-07-08 is day 739440.\<close>

definition example_dates :: "string \<Rightarrow> py_error + int" where
  "example_dates s =
     (if s = ''2025-07-08'' then Inr 739440
      else if s = ''2025-06-29'' then Inr 739431
      else if s = ''2025-07-07'' then Inr 739439
      else if s = ''9999-12-31'' then Inr 3652059
      else Inl ValueError)"

definition example_payload :: "pyfloat \<Rightarrow> json" where
  "example_payload x =
     JObj [(''result'', JObj [(''name'', JStr ''ESPN'')]), (''resultScore'', JNum x)]"

definition example_row :: "pyfloat option \<Rightarrow> json \<Rightarrow> int \<Rightarrow> kg_result" where
  "example_row sc payload dt =
     \<lparr>entity_id = 1, result_score = sc, name = Some ''ESPN'', description = None,
      article_body = None, raw_json = payload, date = dt\<rparr>"

definition example_entities :: "entity list" where
  "example_entities = [\<lparr>ent_id = 1, ent_name = ''ESPN''\<rparr>]"

text \<open>The scenario of the specification: two rows on 2025-07-08 with scores 10 and 20.\<close>

definition scenario_rows :: "kg_result list" where
  "scenario_rows = [example_row (Some (Finite 10)) (example_payload (Finite 10)) 739440,
                    example_row (Some (Finite 20)) (example_payload (Finite 20)) 739440]"

definition scenario_db :: database where
  "scenario_db = \<lparr>entities_tbl = Some example_entities, results_tbl = Some scenario_rows\<rparr>"

text \<open>The scenario with one target date, 2025-07-03, already populated.\<close>

definition populated_db :: database where
  "populated_db =
     \<lparr>entities_tbl = Some example_entities,
      results_tbl =
        Some (scenario_rows @ [example_row (Some (Finite 7)) (example_payload (Finite 7)) 739435])\<rparr>"

text \<open>A source row with score 0.0, one with the score \<open>2 ^ -15\<close>, one whose payload is
  null, one with the score \<open>2 ^ 41\<close> and one with the score \<open>31 * 2 ^ 1019\<close> (about
  1.74e308). All these scores are doubles.\<close>

definition zero_score_db :: database where
  "zero_score_db =
     \<lparr>entities_tbl = Some example_entities,
      results_tbl = Some [example_row (Some (Finite 10)) (example_payload (Finite 10)) 739440,
                          example_row (Some (Finite 0)) (example_payload (Finite 0)) 739440]\<rparr>"

definition small_score_db :: database where
  "small_score_db =
     \<lparr>entities_tbl = Some example_entities,
      results_tbl = Some [example_row (Some (Finite (1 / 32768)))
                            (example_payload (Finite (1 / 32768))) 739440]\<rparr>"

definition null_payload_db :: database where
  "null_payload_db =
     \<lparr>entities_tbl = Some example_entities,
      results_tbl = Some [example_row (Some (Finite 10)) JNull 739440]\<rparr>"

definition big_score_db :: database where
  "big_score_db =
     \<lparr>entities_tbl = Some example_entities,
      results_tbl = Some [example_row (Some (Finite (2 ^ 41)))
                            (example_payload (Finite (2 ^ 41))) 739440]\<rparr>"

definition huge_score_db :: database where
  "huge_score_db =
     \<lparr>entities_tbl = Some example_entities,
      results_tbl = Some [example_row (Some (Finite (31 * 2 ^ 1019)))
                            (example_payload (Finite (31 * 2 ^ 1019))) 739440]\<rparr>"

text \<open>Three sequences of draws of \<open>random.uniform(-0.05, 0.05)\<close>: the two ends of the
  range in turn, always 0.0, and always the upper end 0.05.\<close>

definition example_rng :: "nat \<Rightarrow> pyfloat" where
  "example_rng k = (if even k then Finite double_0_05 else Finite (- double_0_05))"

definition zero_rng :: "nat \<Rightarrow> pyfloat" where
  "zero_rng k = Finite 0"

definition top_rng :: "nat \<Rightarrow> pyfloat" where
  "top_rng k = Finite double_0_05"

text \<open>A database in which neither table has been created.\<close>

definition no_tables :: database where
  "no_tables = \<lparr>entities_tbl = None, results_tbl = None\<rparr>"

text \<open>A \<open>requests.get\<close> that times out, one that answers with status 500, and a
  driver that accepts numbers and strings for the columns of those types.\<close>

definition timeout_get :: "params \<Rightarrow> py_error + response" where
  "timeout_get ps = Inl (RequestException Timeout)"

definition error_500_get :: "params \<Rightarrow> py_error + response" where
  "error_500_get ps = Inr \<lparr>status_code = 500, body = None\<rparr>"

definition example_driver :: driver where
  "example_driver =
     \<lparr>float_column = (\<lambda>j. case j of JNum x \<Rightarrow> Inr (Some x) | JNull \<Rightarrow> Inr None | _ \<Rightarrow> Inl DataError),
      text_column = (\<lambda>j. case j of JStr s \<Rightarrow> Inr (Some s) | JNull \<Rightarrow> Inr None | _ \<Rightarrow> Inl DataError)\<rparr>"

section \<open>Lemmas on the backfill loop\<close>

lemmas example_defs = example_dates_def example_payload_def example_row_def example_entities_def
  scenario_rows_def scenario_db_def populated_db_def zero_score_db_def small_score_db_def
  null_payload_db_def big_score_db_def huge_score_db_def example_rng_def zero_rng_def top_rng_def

lemma backfill_row_date: "backfill_row u d s = Inr r \<Longrightarrow> date r = d"
  by (auto simp: backfill_row_def Let_def split: sum.splits option.splits)

lemma add_copies_shape:
  "add_copies rng d srcs (pend, k) = Inr (pend', k') \<Longrightarrow>
     \<exists>b. pend' = pend @ b \<and> k' = k + length srcs \<and> length b = length srcs \<and>
         (\<forall>j<length srcs. backfill_row (rng (k + j)) d (srcs ! j) = Inr (b ! j))"
proof (induction srcs arbitrary: pend k)
  case Nil
  then show ?case by simp
next
  case (Cons s srcs)
  from Cons.prems obtain r where r: "backfill_row (rng k) d s = Inr r"
    and rest: "add_copies rng d srcs (pend @ [r], Suc k) = Inr (pend', k')"
    by (auto split: sum.splits)
  from Cons.IH [OF rest] obtain b where b: "pend' = (pend @ [r]) @ b" "k' = Suc k + length srcs"
    "length b = length srcs" "\<forall>j<length srcs. backfill_row (rng (Suc k + j)) d (srcs ! j) = Inr (b ! j)"
    by blast
  have "\<forall>j<length (s # srcs). backfill_row (rng (k + j)) d ((s # srcs) ! j) = Inr ((r # b) ! j)"
  proof (intro allI impI)
    fix j assume "j < length (s # srcs)"
    then show "backfill_row (rng (k + j)) d ((s # srcs) ! j) = Inr ((r # b) ! j)"
      using r b(4) by (cases j) auto
  qed
  with b(1-3) show ?case by (intro exI [of _ "r # b"]) simp
qed

lemma find_append_pending:
  "\<forall>r\<in>set p. date r < cur \<Longrightarrow> find (\<lambda>r. date r = cur) (rs @ p) = find (\<lambda>r. date r = cur) rs"
  by (induction rs) (auto simp: find_None_iff)

lemma open_dates_skip:
  "cur \<le> e \<Longrightarrow> find (\<lambda>r. date r = cur) rs = Some x \<Longrightarrow> open_dates rs cur e = open_dates rs (cur + 1) e"
  by (simp add: open_dates_def upto_rec1)

lemma open_dates_take:
  "cur \<le> e \<Longrightarrow> find (\<lambda>r. date r = cur) rs = None \<Longrightarrow> open_dates rs cur e = cur # open_dates rs (cur + 1) e"
  by (simp add: open_dates_def upto_rec1)

lemma open_dates_done: "\<not> cur \<le> e \<Longrightarrow> open_dates rs cur e = []"
  by (simp add: open_dates_def)

lemma backfill_dates_shape:
  "backfill_dates rng srcs e cur (s, k) = Inr (s', k') \<Longrightarrow>
   results_tbl (db s) = Some rs \<Longrightarrow> \<forall>r\<in>set (pending s). date r < cur \<Longrightarrow>
     db s' = db s \<and>
     (\<exists>new. pending s' = pending s @ new \<and>
        length new = length srcs * length (open_dates rs cur e) \<and>
        k' = k + length new \<and>
        (\<forall>i<length new. backfill_row (rng (k + i)) (open_dates rs cur e ! (i div length srcs))
             (srcs ! (i mod length srcs)) = Inr (new ! i)))"
proof (induction rng srcs e cur "(s, k)" arbitrary: s k rule: backfill_dates.induct)
  case (1 rng srcs e cur s k)
  show ?case
  proof (cases "cur \<le> e")
    case False
    with "1.prems" show ?thesis by (simp add: open_dates_done)
  next
    case True
    have q: "query_results s = Inr (rs @ pending s)"
      using "1.prems"(2) by (simp add: query_results_def)
    have fnd: "find (\<lambda>r. date r = cur) (rs @ pending s) = find (\<lambda>r. date r = cur) rs"
      using "1.prems"(3) by (rule find_append_pending)
    show ?thesis
    proof (cases "find (\<lambda>r. date r = cur) rs")
      case (Some x)
      from "1.prems"(1) True q fnd Some obtain nxt where nxt: "date_succ cur = Inr nxt"
        and run: "backfill_dates rng srcs e nxt (s, k) = Inr (s', k')"
        by (auto split: sum.splits)
      from nxt have n1: "nxt = cur + 1" by (auto simp: date_succ_def split: if_splits)
      have inv: "\<forall>r\<in>set (pending s). date r < nxt" using "1.prems"(3) n1 by auto
      have "find (\<lambda>r. date r = cur) (rs @ pending s) = Some x" using fnd Some by simp
      from "1.hyps"(2) [OF True q this nxt run "1.prems"(2) inv]
      show ?thesis using open_dates_skip [OF True Some] n1 by simp
    next
      case None
      from "1.prems"(1) True q fnd None obtain pend k1 nxt where
        cp: "add_copies rng cur srcs (pending s, k) = Inr (pend, k1)"
        and nxt: "date_succ cur = Inr nxt"
        and run: "backfill_dates rng srcs e nxt (s\<lparr>pending := pend\<rparr>, k1) = Inr (s', k')"
        by (auto split: sum.splits)
      from nxt have n1: "nxt = cur + 1" by (auto simp: date_succ_def split: if_splits)
      from add_copies_shape [OF cp] obtain b where b: "pend = pending s @ b"
        "k1 = k + length srcs" "length b = length srcs"
        "\<forall>j<length srcs. backfill_row (rng (k + j)) cur (srcs ! j) = Inr (b ! j)"
        by blast
      have bd: "\<forall>r\<in>set b. date r = cur"
      proof
        fix r assume "r \<in> set b"
        then obtain j where "j < length b" "b ! j = r" by (auto simp: in_set_conv_nth)
        with b(3,4) have "backfill_row (rng (k + j)) cur (srcs ! j) = Inr r" by auto
        then show "date r = cur" by (rule backfill_row_date)
      qed
      have inv: "\<forall>r\<in>set (pending (s\<lparr>pending := pend\<rparr>)). date r < nxt"
        using "1.prems"(3) bd b(1) n1 by auto
      have tbl: "results_tbl (db (s\<lparr>pending := pend\<rparr>)) = Some rs"
        using "1.prems"(2) by simp
      have fn: "find (\<lambda>r. date r = cur) (rs @ pending s) = None" using fnd None by simp
      from "1.hyps"(1) [OF True q fn cp refl nxt run tbl inv]
      obtain new' where dbs: "db s' = db s"
        and new': "pending s' = pend @ new'"
          "length new' = length srcs * length (open_dates rs nxt e)"
          "k' = k1 + length new'"
          "\<forall>i<length new'. backfill_row (rng (k1 + i)) (open_dates rs nxt e ! (i div length srcs))
              (srcs ! (i mod length srcs)) = Inr (new' ! i)"
        by auto
      have od: "open_dates rs cur e = cur # open_dates rs nxt e"
        using open_dates_take [OF True None] n1 by simp
      let ?new = "b @ new'"
      have len: "length ?new = length srcs * length (open_dates rs cur e)"
        using b(3) new'(2) od by simp
      have rows: "\<forall>i<length ?new. backfill_row (rng (k + i)) (open_dates rs cur e ! (i div length srcs))
              (srcs ! (i mod length srcs)) = Inr (?new ! i)"
      proof (intro allI impI)
        fix i assume i: "i < length ?new"
        show "backfill_row (rng (k + i)) (open_dates rs cur e ! (i div length srcs))
              (srcs ! (i mod length srcs)) = Inr (?new ! i)"
        proof (cases "i < length srcs")
          case True
          then show ?thesis using b(3,4) od by (simp add: nth_append)
        next
          case False
          then have ge: "length srcs \<le> i" by simp
          have pos: "0 < length srcs" using i b(3) new'(2) by (cases srcs) auto
          let ?i = "i - length srcs"
          have i': "?i < length new'" using i ge b(3) by simp
          have d: "i div length srcs = Suc (?i div length srcs)"
            using pos ge by (simp add: le_div_geq)
          have m: "i mod length srcs = ?i mod length srcs"
            using ge by (simp add: le_mod_geq)
          have kk: "k1 + ?i = k + i" using b(2) ge by simp
          from new'(4) i' have "backfill_row (rng (k1 + ?i)) (open_dates rs nxt e ! (?i div length srcs))
              (srcs ! (?i mod length srcs)) = Inr (new' ! ?i)" by blast
          then show ?thesis using d m kk od b(3) False by (simp add: nth_append)
        qed
      qed
      show ?thesis using dbs new'(1,3) b(1,2,3) len rows
        by (intro conjI exI [of _ ?new]) auto
    qed
  qed
qed

lemma backfill_data_Finished:
  assumes run: "backfill_data fi rng d source_date_str start_date_str end_date_str = (Finished, d')"
    and src: "fi source_date_str = Inr source_date"
  shows "\<exists>start_date end_date rs new.
           fi start_date_str = Inr start_date \<and> fi end_date_str = Inr end_date \<and> results_tbl d = Some rs \<and>
           filter (\<lambda>r. date r = source_date) rs \<noteq> [] \<and>
           d' = d\<lparr>results_tbl := Some (rs @ new)\<rparr> \<and>
           length new = length (filter (\<lambda>r. date r = source_date) rs)
                          * length (open_dates rs start_date end_date) \<and>
           (\<forall>i<length new.
              backfill_row (rng i)
                (open_dates rs start_date end_date ! (i div length (filter (\<lambda>r. date r = source_date) rs)))
                (filter (\<lambda>r. date r = source_date) rs ! (i mod length (filter (\<lambda>r. date r = source_date) rs)))
              = Inr (new ! i))"
proof -
  let ?s0 = "\<lparr>db = d, pending = []\<rparr>"
  from run src obtain start_date end_date where p2: "fi start_date_str = Inr start_date" and p3: "fi end_date_str = Inr end_date"
    by (auto simp: backfill_data_def split: sum.splits)
  from run src p2 p3 obtain rs where tbl: "results_tbl d = Some rs"
    by (cases "results_tbl d") (auto simp: backfill_data_def query_results_def)
  let ?srcs = "filter (\<lambda>r. date r = source_date) rs"
  have q: "query_results ?s0 = Inr rs" using tbl by (simp add: query_results_def)
  from run src p2 p3 q have ne: "?srcs \<noteq> []"
    by (auto simp: backfill_data_def Let_def split: if_splits)
  from run src p2 p3 q ne obtain s' k' where
    loop: "backfill_dates rng ?srcs end_date start_date (?s0, 0) = Inr (s', k')"
    and d': "d' = db (commit s')"
    by (auto simp: backfill_data_def Let_def split: sum.splits)
  have "results_tbl (db ?s0) = Some rs" using tbl by simp
  moreover have "\<forall>r\<in>set (pending ?s0). date r < start_date" by simp
  ultimately have sh: "db s' = db ?s0 \<and>
     (\<exists>new. pending s' = pending ?s0 @ new \<and>
        length new = length ?srcs * length (open_dates rs start_date end_date) \<and>
        k' = 0 + length new \<and>
        (\<forall>i<length new. backfill_row (rng (0 + i)) (open_dates rs start_date end_date ! (i div length ?srcs))
             (?srcs ! (i mod length ?srcs)) = Inr (new ! i)))"
    by (rule backfill_dates_shape [OF loop])
  then obtain new where new: "pending s' = new"
    "length new = length ?srcs * length (open_dates rs start_date end_date)"
    "\<forall>i<length new. backfill_row (rng i) (open_dates rs start_date end_date ! (i div length ?srcs))
             (?srcs ! (i mod length ?srcs)) = Inr (new ! i)"
    by auto
  from sh have dbs: "db s' = d" by simp
  have "d' = d\<lparr>results_tbl := Some (rs @ new)\<rparr>"
    using d' dbs new(1) tbl by (simp add: commit_def)
  with p2 p3 tbl ne new(2,3) show ?thesis by blast
qed

lemma inserted_row:
  assumes run: "backfill_data fi rng d source_date_str start_date_str end_date_str = (Finished, d')"
    and src: "fi source_date_str = Inr source_date"
    and i: "i < length (rows_of d') - length (rows_of d)"
  shows "\<exists>target_date.
           backfill_row (rng i) target_date
             (filter (\<lambda>r. date r = source_date) (rows_of d)
                ! (i mod length (filter (\<lambda>r. date r = source_date) (rows_of d))))
           = Inr (rows_of d' ! (length (rows_of d) + i))"
proof -
  from backfill_data_Finished [OF run src] obtain start_date end_date rs new where
    tbl: "results_tbl d = Some rs" and d': "d' = d\<lparr>results_tbl := Some (rs @ new)\<rparr>"
    and rows: "\<forall>i<length new.
              backfill_row (rng i)
                (open_dates rs start_date end_date ! (i div length (filter (\<lambda>r. date r = source_date) rs)))
                (filter (\<lambda>r. date r = source_date) rs ! (i mod length (filter (\<lambda>r. date r = source_date) rs)))
              = Inr (new ! i)"
    by blast
  have r: "rows_of d = rs" "rows_of d' = rs @ new" using tbl d' by (simp_all add: rows_of_def)
  with i have "i < length new" by simp
  with rows r show ?thesis by auto
qed

lemma backfill_data_frame:
  "\<exists>new. snd (backfill_data fi rng d source_date_str start_date_str end_date_str)
           = d\<lparr>results_tbl := map_option (\<lambda>rs. rs @ new) (results_tbl d)\<rparr>"
proof (cases "fst (backfill_data fi rng d source_date_str start_date_str end_date_str) = Finished")
  case True
  then obtain d' where run: "backfill_data fi rng d source_date_str start_date_str end_date_str = (Finished, d')"
    by (cases "backfill_data fi rng d source_date_str start_date_str end_date_str") auto
  then obtain source_date where "fi source_date_str = Inr source_date"
    by (auto simp: backfill_data_def split: sum.splits)
  from backfill_data_Finished [OF run this] run show ?thesis by auto
next
  case False
  then have "snd (backfill_data fi rng d source_date_str start_date_str end_date_str) = d"
    by (auto simp: backfill_data_def Let_def split: sum.splits if_splits)
  then show ?thesis by (intro exI [of _ "[]"]) (cases "results_tbl d"; simp)
qed

lemma new_rows_dates:
  assumes run: "backfill_data fi rng d source_date_str start_date_str end_date_str = (Finished, d')"
  shows "\<exists>new. rows_of d' = rows_of d @ new \<and>
           (\<forall>r\<in>set new. find (\<lambda>x. date x = date r) (rows_of d) = None)"
proof -
  from run obtain source_date where src: "fi source_date_str = Inr source_date"
    by (auto simp: backfill_data_def split: sum.splits)
  from backfill_data_Finished [OF run src] obtain start_date end_date rs new where
    tbl: "results_tbl d = Some rs" and d': "d' = d\<lparr>results_tbl := Some (rs @ new)\<rparr>"
    and len: "length new = length (filter (\<lambda>r. date r = source_date) rs)
                          * length (open_dates rs start_date end_date)"
    and rows: "\<forall>i<length new.
              backfill_row (rng i)
                (open_dates rs start_date end_date ! (i div length (filter (\<lambda>r. date r = source_date) rs)))
                (filter (\<lambda>r. date r = source_date) rs ! (i mod length (filter (\<lambda>r. date r = source_date) rs)))
              = Inr (new ! i)"
    by blast
  let ?n = "length (filter (\<lambda>r. date r = source_date) rs)"
  let ?ods = "open_dates rs start_date end_date"
  have "\<forall>r\<in>set new. find (\<lambda>x. date x = date r) rs = None"
  proof
    fix r assume "r \<in> set new"
    then obtain i where i: "i < length new" and r: "new ! i = r" by (auto simp: in_set_conv_nth)
    from i len have "i < length ?ods * ?n" by (simp add: mult.commute)
    then have lt: "i div ?n < length ?ods" by (rule less_mult_imp_div_less)
    from rows i r have "date r = ?ods ! (i div ?n)" by (auto dest: backfill_row_date)
    with lt have "date r \<in> set ?ods" by simp
    then show "find (\<lambda>x. date x = date r) rs = None" by (simp add: open_dates_def)
  qed
  then show ?thesis using tbl d' by (simp add: rows_of_def)
qed

section \<open>Lemmas on float arithmetic\<close>

lemma bit_length_bounds: "0 < n \<Longrightarrow> 2 ^ (bit_length n - 1) \<le> n \<and> n < 2 ^ bit_length n"
proof (induction n rule: bit_length.induct)
  case (1 n)
  show ?case
  proof (cases "n div 2 = 0")
    case True
    with "1.prems" have "n = 1" by (auto simp: div_eq_0_iff)
    then show ?thesis by (simp add: bit_length.simps)
  next
    case False
    then have pos: "0 < n div 2" by simp
    from "1.IH" [OF _ pos] "1.prems" have
      ih: "2 ^ (bit_length (n div 2) - 1) \<le> n div 2" "n div 2 < 2 ^ bit_length (n div 2)"
      by auto
    have bl: "bit_length n = Suc (bit_length (n div 2))"
      using "1.prems" by (subst bit_length.simps) simp
    have p: "0 < bit_length (n div 2)" using pos by (subst bit_length.simps) simp
    then obtain k where k: "bit_length (n div 2) = Suc k" by (cases "bit_length (n div 2)") auto
    from ih k have a: "2 ^ k \<le> n div 2" "n div 2 < 2 ^ Suc k" by auto
    have "2 * 2 ^ k \<le> n" using a(1) by linarith
    moreover have "n < 2 * 2 ^ Suc k" using a(2) by linarith
    ultimately show ?thesis using bl k by simp
  qed
qed

lemma ilog2_bounds:
  assumes "0 < q"
  shows "2 powi ilog2 q \<le> q \<and> q < 2 powi (ilog2 q + 1)"
proof (cases "1 \<le> q")
  case True
  let ?n = "nat \<lfloor>q\<rfloor>"
  have n: "0 < ?n" using True by linarith
  from bit_length_bounds [OF n] have b: "2 ^ (bit_length ?n - 1) \<le> ?n" "?n < 2 ^ bit_length ?n"
    by auto
  have p: "0 < bit_length ?n" using n by (subst bit_length.simps) simp
  have e: "ilog2 q = int (bit_length ?n - 1)" using True p by (simp add: ilog2_def)
  have e1: "ilog2 q + 1 = int (bit_length ?n)" using e p by simp
  have "(2::rat) ^ (bit_length ?n - 1) \<le> of_nat ?n"
    using b(1) by (metis of_nat_le_iff of_nat_numeral of_nat_power)
  also have "\<dots> \<le> q" using True by (simp add: of_nat_nat)
  finally have lo: "2 powi ilog2 q \<le> q" by (simp add: e)
  have "Suc ?n \<le> 2 ^ bit_length ?n" using b(2) by (rule Suc_leI)
  then have "(of_nat (Suc ?n) :: rat) \<le> 2 ^ bit_length ?n"
    by (metis of_nat_le_iff of_nat_numeral of_nat_power)
  moreover have "of_nat (Suc ?n) = (of_int \<lfloor>q\<rfloor> :: rat) + 1"
    using True by (simp add: of_nat_nat)
  moreover have "q < of_int \<lfloor>q\<rfloor> + 1" by linarith
  ultimately have "q < 2 powi (ilog2 q + 1)" by (simp add: e1)
  with lo show ?thesis by simp
next
  case False
  then have q1: "q < 1" by simp
  let ?t = "1 / q"
  have t1: "1 < ?t" using assms q1 by simp
  let ?n = "nat (\<lceil>?t\<rceil> - 1)"
  have c2: "2 \<le> \<lceil>?t\<rceil>" using t1 by (simp add: le_ceiling_iff)
  then have n: "0 < ?n" by simp
  from bit_length_bounds [OF n] have b: "2 ^ (bit_length ?n - 1) \<le> ?n" "?n < 2 ^ bit_length ?n"
    by auto
  let ?k = "bit_length ?n"
  have p: "0 < ?k" using n by (subst bit_length.simps) simp
  have e: "ilog2 q = - int ?k" using False by (simp add: ilog2_def)
  have z: "0 \<le> \<lceil>?t\<rceil> - 1" using c2 by linarith
  have nn: "of_nat ?n = (of_int \<lceil>?t\<rceil> :: rat) - 1"
    using of_nat_nat [OF z, where ?'a = rat] by simp
  have "Suc ?n \<le> 2 ^ ?k" using b(2) by (rule Suc_leI)
  then have "(of_nat (Suc ?n) :: rat) \<le> 2 ^ ?k"
    by (metis of_nat_le_iff of_nat_numeral of_nat_power)
  then have "of_int \<lceil>?t\<rceil> \<le> (2::rat) ^ ?k" using nn by simp
  then have tk: "?t \<le> 2 ^ ?k" using le_of_int_ceiling [of ?t] by linarith
  have "1 \<le> q * 2 ^ ?k" using tk assms by (simp add: field_simps)
  then have lo: "2 powi ilog2 q \<le> q"
    by (simp add: e power_int_minus field_simps)
  have "(2::rat) ^ (?k - 1) \<le> of_nat ?n"
    using b(1) by (metis of_nat_le_iff of_nat_numeral of_nat_power)
  also have "\<dots> < ?t" using nn by (simp; linarith?)
  finally have "(2::rat) ^ (?k - 1) < 1 / q" .
  then have "q * 2 ^ (?k - 1) < 1" using assms by (simp add: field_simps)
  moreover have "ilog2 q + 1 = - int (?k - 1)" using e p by simp
  ultimately have "q < 2 powi (ilog2 q + 1)"
    by (simp add: power_int_minus field_simps)
  with lo show ?thesis by simp
qed

lemma floor_rat_numeral: "\<lfloor>numeral a / numeral b :: rat\<rfloor> = numeral a div numeral b"
  using floor_divide_of_int_eq [of "numeral a" "numeral b", where ?'a = rat] by simp

lemma floor_rat_neg_numeral: "\<lfloor>- (numeral a / numeral b) :: rat\<rfloor> = - numeral a div numeral b"
  using floor_divide_of_int_eq [of "- numeral a" "numeral b", where ?'a = rat] by simp

lemma ceiling_rat_numeral: "\<lceil>numeral a / numeral b :: rat\<rceil> = - (- numeral a div numeral b)"
  unfolding ceiling_def using floor_rat_neg_numeral [of a b] by simp

lemma round_half_even_error: "\<bar>of_int (round_half_even q) - q\<bar> \<le> 1 / 2"
proof -
  have "of_int \<lfloor>q\<rfloor> \<le> q" "q < of_int \<lfloor>q\<rfloor> + 1" by linarith+
  then show ?thesis by (auto simp: round_half_even_def Let_def)
qed

lemma to_double_ulp:
  assumes "q \<noteq> 0" and "ulp = 2 powi (max (ilog2 \<bar>q\<bar>) (- 1022) - 52)"
  shows "0 < ulp \<and> ulp / 2 \<le> \<bar>q\<bar> / 2 ^ 53 + 1 / 2 ^ 1075 \<and>
         \<bar>of_int (round_half_even (q / ulp)) * ulp - q\<bar> \<le> ulp / 2"
proof -
  have pos: "0 < ulp" using assms(2) by (simp add: zero_less_power_int)
  have "\<bar>of_int (round_half_even (q / ulp)) - q / ulp\<bar> \<le> 1 / 2" by (rule round_half_even_error)
  then have "\<bar>of_int (round_half_even (q / ulp)) - q / ulp\<bar> * ulp \<le> 1 / 2 * ulp"
    using pos by (intro mult_right_mono) auto
  moreover have "\<bar>of_int (round_half_even (q / ulp)) - q / ulp\<bar> * ulp
      = \<bar>of_int (round_half_even (q / ulp)) * ulp - q\<bar>"
  proof -
    have "(of_int (round_half_even (q / ulp)) - q / ulp) * ulp
        = of_int (round_half_even (q / ulp)) * ulp - q"
      using pos by (simp add: left_diff_distrib)
    then have "\<bar>of_int (round_half_even (q / ulp)) * ulp - q\<bar>
        = \<bar>of_int (round_half_even (q / ulp)) - q / ulp\<bar> * \<bar>ulp\<bar>"
      by (simp only: abs_mult [symmetric])
    then show ?thesis using pos by simp
  qed
  ultimately have err: "\<bar>of_int (round_half_even (q / ulp)) * ulp - q\<bar> \<le> ulp / 2" by simp
  have half: "ulp / 2 \<le> \<bar>q\<bar> / 2 ^ 53 + 1 / 2 ^ 1075"
  proof (cases "- 1022 \<le> ilog2 \<bar>q\<bar>")
    case True
    then have u: "ulp = 2 powi (ilog2 \<bar>q\<bar>) / 2 ^ 52"
      using assms(2) by (simp add: max_def power_int_diff)
    have "2 powi (ilog2 \<bar>q\<bar>) \<le> \<bar>q\<bar>" using ilog2_bounds [of "\<bar>q\<bar>"] assms(1) by simp
    then have "ulp / 2 \<le> \<bar>q\<bar> / 2 ^ 53" using u by (simp add: field_simps)
    moreover have "(0::rat) \<le> 1 / 2 ^ 1075" by simp
    ultimately show ?thesis by linarith
  next
    case False
    then have "ulp = 2 powi (- 1074)" using assms(2) by (simp add: max_def)
    then have "ulp / 2 = 1 / 2 ^ 1075" by (simp add: power_int_minus field_simps)
    moreover have "0 \<le> \<bar>q\<bar> / 2 ^ 53" by simp
    ultimately show ?thesis by linarith
  qed
  from pos half err show ?thesis by simp
qed

lemma to_double_error:
  assumes "to_double q = Finite v"
  shows "\<bar>v - q\<bar> \<le> \<bar>q\<bar> / 2 ^ 53 + 1 / 2 ^ 1075"
proof (cases "q = 0")
  case True
  with assms show ?thesis by (simp add: to_double_def)
next
  case False
  define ulp :: rat where "ulp = 2 powi (max (ilog2 \<bar>q\<bar>) (- 1022) - 52)"
  from to_double_ulp [OF False ulp_def] have
    h: "ulp / 2 \<le> \<bar>q\<bar> / 2 ^ 53 + 1 / 2 ^ 1075"
    and e: "\<bar>of_int (round_half_even (q / ulp)) * ulp - q\<bar> \<le> ulp / 2" by auto
  have "v = of_int (round_half_even (q / ulp)) * ulp"
    using assms False unfolding to_double_def Let_def ulp_def by (auto split: if_splits)
  with h e show ?thesis by linarith
qed

lemma to_double_finite:
  assumes "\<bar>q\<bar> \<le> 3 * 2 ^ 1022"
  shows "\<exists>v. to_double q = Finite v"
proof (cases "q = 0")
  case True
  then show ?thesis by (simp add: to_double_def)
next
  case False
  define ulp :: rat where "ulp = 2 powi (max (ilog2 \<bar>q\<bar>) (- 1022) - 52)"
  define v where "v = of_int (round_half_even (q / ulp)) * ulp"
  from to_double_ulp [OF False ulp_def] have
    h: "ulp / 2 \<le> \<bar>q\<bar> / 2 ^ 53 + 1 / 2 ^ 1075"
    and e: "\<bar>v - q\<bar> \<le> ulp / 2" unfolding v_def by auto
  have "\<bar>v\<bar> \<le> \<bar>q\<bar> + \<bar>q\<bar> / 2 ^ 53 + 1 / 2 ^ 1075" using h e by linarith
  also have "\<dots> \<le> 3 * 2 ^ 1022 + (3 * 2 ^ 1022) / 2 ^ 53 + 1 / 2 ^ 1075"
    using assms by (intro add_mono divide_right_mono) auto
  also have "\<dots> < 2 ^ 1024" by simp
  finally have "\<not> 2 ^ 1024 \<le> \<bar>v\<bar>" by simp
  then show ?thesis using False unfolding to_double_def Let_def ulp_def v_def by auto
qed

lemma to_double_error_60:
  assumes "to_double q = Finite v"
  shows "\<bar>v - q\<bar> \<le> \<bar>q\<bar> / 2 ^ 53 + 1 / 2 ^ 60"
proof -
  have "(1::rat) / 2 ^ 1075 \<le> 1 / 2 ^ 60" by simp
  with to_double_error [OF assms] show ?thesis by linarith
qed

lemma double_0_05_bound: "double_0_05 \<le> 1 / 20 + 1 / 2 ^ 58" "0 \<le> double_0_05"
  by (simp_all add: double_0_05_def)

lemma new_score_bound:
  assumes u: "\<bar>u\<bar> \<le> double_0_05" and x0: "x \<noteq> 0" and xb: "\<bar>x\<bar> \<le> 2 ^ 1023"
  shows "\<exists>y. new_score_of (Some (Finite x)) (fadd (Finite 1) (Finite u)) = Inr (Some (Finite y)) \<and>
             \<bar>y - x\<bar> \<le> \<bar>x\<bar> * (1 / 20 + 1 / 2 ^ 50) + 1 / 20000 + 1 / 2 ^ 50"
proof -
  define a where "a = \<bar>x\<bar>"
  have a0: "0 \<le> a" by (simp add: a_def)
  have ub: "\<bar>u\<bar> \<le> 1 / 20 + 1 / 2 ^ 58" using u double_0_05_bound(1) by linarith
  \<comment> \<open>the modifier\<close>
  have "\<bar>1 + u\<bar> \<le> 3 * 2 ^ 1022" using ub by (simp add: abs_if split: if_splits)
  from to_double_finite [OF this] obtain m where m: "to_double (1 + u) = Finite m" by blast
  have u1: "\<bar>1 + u\<bar> \<le> 2" using ub by (simp add: abs_if split: if_splits)
  have "\<bar>1 + u\<bar> / 2 ^ 53 \<le> 2 / 2 ^ 53" using u1 by (intro divide_right_mono) auto
  with to_double_error_60 [OF m] have me: "\<bar>m - (1 + u)\<bar> \<le> 2 / 2 ^ 53 + 1 / 2 ^ 60" by linarith
  have m1: "\<bar>m - 1\<bar> \<le> 1 / 20 + 1 / 2 ^ 51" using me ub by (simp add: abs_if split: if_splits)
  have mb: "\<bar>m\<bar> \<le> 11 / 10" using m1 by (simp add: abs_if split: if_splits)
  \<comment> \<open>the product\<close>
  have xm1: "\<bar>x * m - x\<bar> \<le> a * (1 / 20 + 1 / 2 ^ 51)"
  proof -
    have "\<bar>x * m - x\<bar> = \<bar>x\<bar> * \<bar>m - 1\<bar>" by (simp add: abs_mult [symmetric] right_diff_distrib)
    also have "\<dots> \<le> \<bar>x\<bar> * (1 / 20 + 1 / 2 ^ 51)" using m1 by (intro mult_left_mono) auto
    finally show ?thesis by (simp add: a_def)
  qed
  have xm: "\<bar>x * m\<bar> \<le> a * (11 / 10)"
  proof -
    have "\<bar>x * m\<bar> = \<bar>x\<bar> * \<bar>m\<bar>" by (simp add: abs_mult)
    also have "\<dots> \<le> \<bar>x\<bar> * (11 / 10)" using mb by (intro mult_left_mono) auto
    finally show ?thesis by (simp add: a_def)
  qed
  have ab: "a \<le> 2 ^ 1023" using xb by (simp add: a_def)
  have "\<bar>x * m\<bar> \<le> 3 * 2 ^ 1022" using xm ab by simp
  from to_double_finite [OF this] obtain p where p: "to_double (x * m) = Finite p" by blast
  have "\<bar>x * m\<bar> / 2 ^ 53 \<le> a * (11 / 10) / 2 ^ 53" using xm by (intro divide_right_mono) auto
  with to_double_error_60 [OF p] have pe: "\<bar>p - x * m\<bar> \<le> a * (11 / 10) / 2 ^ 53 + 1 / 2 ^ 60"
    by linarith
  have pb: "\<bar>p\<bar> \<le> a * (12 / 10) + 1 / 2 ^ 60" using pe xm a0 by (simp add: abs_if split: if_splits)
  \<comment> \<open>the rounding to four decimals\<close>
  define d where "d = of_int (round_half_even (p * 10 ^ 4)) / (10 ^ 4 :: rat)"
  have de: "\<bar>d - p\<bar> \<le> 1 / 20000"
  proof -
    have "\<bar>of_int (round_half_even (p * 10 ^ 4)) - p * 10 ^ 4\<bar> \<le> 1 / 2"
      by (rule round_half_even_error)
    then have "\<bar>of_int (round_half_even (p * 10000)) / 10000 - p\<bar> * 10000 \<le> 1 / 2"
      by (simp add: abs_if split: if_splits)
    then show ?thesis by (simp add: d_def)
  qed
  have db: "\<bar>d\<bar> \<le> a * (12 / 10) + 1" using de pb by (simp add: abs_if split: if_splits)
  have "\<bar>d\<bar> \<le> 3 * 2 ^ 1022" using db ab by simp
  from to_double_finite [OF this] obtain y where y: "to_double d = Finite y" by blast
  have "\<bar>d\<bar> / 2 ^ 53 \<le> (a * (12 / 10) + 1) / 2 ^ 53" using db by (intro divide_right_mono) auto
  with to_double_error_60 [OF y] have ye: "\<bar>y - d\<bar> \<le> (a * (12 / 10) + 1) / 2 ^ 53 + 1 / 2 ^ 60"
    by linarith
  have "\<bar>y - x\<bar> \<le> \<bar>y - d\<bar> + \<bar>d - p\<bar> + \<bar>p - x * m\<bar> + \<bar>x * m - x\<bar>" by linarith
  also have "\<dots> \<le> ((a * (12 / 10) + 1) / 2 ^ 53 + 1 / 2 ^ 60) + 1 / 20000
      + (a * (11 / 10) / 2 ^ 53 + 1 / 2 ^ 60) + a * (1 / 20 + 1 / 2 ^ 51)"
    using ye de pe xm1 by linarith
  also have "\<dots> \<le> a * (1 / 20 + 1 / 2 ^ 50) + 1 / 20000 + 1 / 2 ^ 50"
    using a0 by (simp add: field_simps)
  finally have bound: "\<bar>y - x\<bar> \<le> \<bar>x\<bar> * (1 / 20 + 1 / 2 ^ 50) + 1 / 20000 + 1 / 2 ^ 50"
    by (simp add: a_def)
  have "new_score_of (Some (Finite x)) (fadd (Finite 1) (Finite u)) = Inr (Some (Finite y))"
    using x0 m p y by (simp add: new_score_of_def d_def)
  with bound show ?thesis by blast
qed

section \<open>Lemmas on the copy of one row\<close>

lemma new_score_of_None:
  "new_score_of sc m = Inr None \<longleftrightarrow> (sc = None \<or> (\<exists>x. sc = Some x \<and> \<not> float_truthy x))"
  by (auto simp: new_score_of_def split: option.splits sum.splits)

lemma backfill_row_score:
  "backfill_row u t s = Inr r \<Longrightarrow>
     new_score_of (result_score s) (fadd (Finite 1) u) = Inr (result_score r)"
  by (auto simp: backfill_row_def Let_def split: sum.splits)

lemma backfill_row_payload:
  assumes "backfill_row u t s = Inr r"
  shows "(\<forall>f. f \<noteq> ''resultScore'' \<longrightarrow> field (raw_json r) f = field (raw_json s) f) \<and>
         (case result_score r of
            Some y \<Rightarrow> field (raw_json r) ''resultScore'' = Some (JNum y)
          | None \<Rightarrow> raw_json r = raw_json s)"
proof (cases "result_score r")
  case None
  with assms show ?thesis
    by (auto simp: backfill_row_def Let_def deepcopy_def split: sum.splits option.splits)
next
  case (Some y)
  with assms obtain j where j: "setitem (raw_json s) ''resultScore'' (JNum y) = Inr j"
    and r: "raw_json r = j"
    by (auto simp: backfill_row_def Let_def deepcopy_def split: sum.splits option.splits)
  from j obtain kvs where kvs: "raw_json s = JObj kvs"
    "j = JObj (AList.update ''resultScore'' (JNum y) kvs)"
    by (cases "raw_json s") auto
  then show ?thesis using r Some by (simp add: update_conv')
qed

lemma uniform_range_Finite:
  "uniform_range u \<Longrightarrow> \<exists>q. u = Finite q \<and> \<bar>q\<bar> \<le> double_0_05"
  by (cases u) (auto simp: uniform_range_def)

lemma backfill_row_ok:
  assumes fin: "\<forall>x. result_score s = Some x \<longrightarrow> (\<exists>q. x = Finite q \<and> \<bar>q\<bar> \<le> 2 ^ 1023)"
    and obj: "(\<exists>x. result_score s = Some x \<and> float_truthy x) \<longrightarrow> is_object (raw_json s)"
    and u: "uniform_range u"
  shows "\<exists>r. backfill_row u t s = Inr r"
proof (cases "result_score s")
  case None
  then show ?thesis by (simp add: backfill_row_def new_score_of_def)
next
  case (Some x)
  with fin obtain q where q: "x = Finite q" "\<bar>q\<bar> \<le> 2 ^ 1023" by blast
  show ?thesis
  proof (cases "q = 0")
    case True
    with Some q show ?thesis by (simp add: backfill_row_def new_score_of_def)
  next
    case False
    from uniform_range_Finite [OF u] obtain uq where uq: "u = Finite uq" "\<bar>uq\<bar> \<le> double_0_05"
      by blast
    from new_score_bound [OF uq(2) False q(2)] obtain y where
      y: "new_score_of (Some (Finite q)) (fadd (Finite 1) (Finite uq)) = Inr (Some (Finite y))"
      by blast
    from obj Some q False obtain kvs where "raw_json s = JObj kvs"
      by (cases "raw_json s") auto
    with y Some q uq show ?thesis by (simp add: backfill_row_def deepcopy_def)
  qed
qed

lemma add_copies_ok:
  assumes "\<forall>s\<in>set srcs. \<forall>x. result_score s = Some x \<longrightarrow> (\<exists>q. x = Finite q \<and> \<bar>q\<bar> \<le> 2 ^ 1023)"
    and "\<forall>s\<in>set srcs. (\<exists>x. result_score s = Some x \<and> float_truthy x) \<longrightarrow> is_object (raw_json s)"
    and "\<forall>k. uniform_range (rng k)"
  shows "\<exists>p. add_copies rng t srcs (pend, k) = Inr p"
  using assms
proof (induction srcs arbitrary: pend k)
  case Nil
  then show ?case by simp
next
  case (Cons s srcs)
  have "\<exists>r. backfill_row (rng k) t s = Inr r"
    using Cons.prems by (intro backfill_row_ok) auto
  then obtain r where r: "backfill_row (rng k) t s = Inr r" ..
  have "\<exists>p. add_copies rng t srcs (pend @ [r], Suc k) = Inr p"
    using Cons.prems by (intro Cons.IH) auto
  with r show ?case by simp
qed

lemma backfill_dates_ok:
  "results_tbl (db s) = Some rs \<Longrightarrow> e < date_max \<Longrightarrow>
   \<forall>s\<in>set srcs. \<forall>x. result_score s = Some x \<longrightarrow> (\<exists>q. x = Finite q \<and> \<bar>q\<bar> \<le> 2 ^ 1023) \<Longrightarrow>
   \<forall>s\<in>set srcs. (\<exists>x. result_score s = Some x \<and> float_truthy x) \<longrightarrow> is_object (raw_json s) \<Longrightarrow>
   \<forall>k. uniform_range (rng k) \<Longrightarrow>
     \<exists>p. backfill_dates rng srcs e cur (s, k) = Inr p"
proof (induction rng srcs e cur "(s, k)" arbitrary: s k rule: backfill_dates.induct)
  case (1 rng srcs e cur s k)
  show ?case
  proof (cases "cur \<le> e")
    case False
    then show ?thesis by simp
  next
    case True
    have q: "query_results s = Inr (rs @ pending s)"
      using "1.prems"(1) by (simp add: query_results_def)
    have nxt: "date_succ cur = Inr (cur + 1)"
      using True "1.prems"(2) by (simp add: date_succ_def)
    show ?thesis
    proof (cases "find (\<lambda>r. date r = cur) (rs @ pending s)")
      case (Some x)
      from "1.hyps"(2) [OF True q Some nxt "1.prems"]
      show ?thesis using True q Some nxt by simp
    next
      case None
      from add_copies_ok [OF "1.prems"(3,4,5)] obtain pend k1 where
        cp: "add_copies rng cur srcs (pending s, k) = Inr (pend, k1)" by fastforce
      have tbl: "results_tbl (db (s\<lparr>pending := pend\<rparr>)) = Some rs" using "1.prems"(1) by simp
      from "1.hyps"(1) [OF True q None cp refl nxt tbl "1.prems"(2,3,4,5)]
      show ?thesis using True q None cp nxt by simp
    qed
  qed
qed

lemma open_dates_all:
  "\<forall>r\<in>set rs. date r < a \<or> b < date r \<Longrightarrow> open_dates rs a b = [a..b]"
  by (auto simp: open_dates_def find_None_iff intro!: filter_True)

section \<open>Runs on the example data, evaluated\<close>

lemmas float_eval = to_double_def ilog2_def bit_length.simps round_half_even_def Let_def
  floor_rat_numeral floor_rat_neg_numeral ceiling_rat_numeral power_int_minus double_0_05_def

lemma new_score_10: "new_score_of (Some (Finite 10)) (Finite 1) = Inr (Some (Finite 10))"
  by (simp add: new_score_of_def float_eval)

lemma new_score_small: "new_score_of (Some (Finite (1 / 32768))) (Finite 1) = Inr (Some (Finite 0))"
  by (simp add: new_score_of_def float_eval)

lemma new_score_big:
  "new_score_of (Some (Finite (2 ^ 41))) (Finite (4728779608739021 / 4503599627370496))
     = Inr (Some (Finite (4728779608739021 / 2048)))"
  by (simp add: new_score_of_def float_eval)

lemma new_score_huge:
  "new_score_of (Some (Finite (31 * 2 ^ 1019))) (Finite (4728779608739021 / 4503599627370496))
     = Inr (Some PosInf)"
  by (simp add: new_score_of_def float_eval)

lemma new_score_zero: "new_score_of (Some (Finite 0)) m = Inr None"
  by (simp add: new_score_of_def)

lemma to_double_1: "to_double 1 = Finite 1"
  by (simp add: float_eval)

lemma to_double_top:
  "to_double (1 + double_0_05) = Finite (4728779608739021 / 4503599627370496)"
  by (simp add: float_eval)

lemmas run_eval = backfill_data_def query_results_def backfill_row_def
  date_succ_def date_max_def commit_def deepcopy_def Let_def
  to_double_1 to_double_top new_score_10 new_score_small new_score_big new_score_huge
  new_score_zero

lemma zero_score_run:
  "backfill_data example_dates zero_rng zero_score_db ''2025-07-08'' ''2025-07-07'' ''2025-07-07''
     = (Finished, zero_score_db\<lparr>results_tbl := Some
         [example_row (Some (Finite 10)) (example_payload (Finite 10)) 739440,
          example_row (Some (Finite 0)) (example_payload (Finite 0)) 739440,
          example_row (Some (Finite 10)) (example_payload (Finite 10)) 739439,
          example_row None (example_payload (Finite 0)) 739439]\<rparr>)"
  by (simp add: example_dates_def example_payload_def example_row_def example_entities_def
      zero_score_db_def zero_rng_def run_eval)

lemma small_score_run:
  "backfill_data example_dates zero_rng small_score_db ''2025-07-08'' ''2025-07-07'' ''2025-07-07''
     = (Finished, small_score_db\<lparr>results_tbl := Some
         [example_row (Some (Finite (1 / 32768))) (example_payload (Finite (1 / 32768))) 739440,
          example_row (Some (Finite 0)) (example_payload (Finite 0)) 739439]\<rparr>)"
  by (simp add: example_dates_def example_payload_def example_row_def example_entities_def
      small_score_db_def zero_rng_def run_eval)

lemma null_payload_run:
  "backfill_data example_dates zero_rng null_payload_db ''2025-07-08'' ''2025-07-07'' ''2025-07-07''
     = (Raised TypeError, null_payload_db)"
  by (simp add: example_dates_def example_payload_def example_row_def example_entities_def
      null_payload_db_def zero_rng_def run_eval)

lemma overflow_run:
  "backfill_data example_dates zero_rng zero_score_db ''2025-07-08'' ''9999-12-31'' ''9999-12-31''
     = (Raised OverflowError, zero_score_db)"
  by (simp add: example_dates_def example_payload_def example_row_def example_entities_def
      zero_score_db_def zero_rng_def run_eval)

lemma big_score_run:
  "backfill_data example_dates top_rng big_score_db ''2025-07-08'' ''2025-07-07'' ''2025-07-07''
     = (Finished, big_score_db\<lparr>results_tbl := Some
         [example_row (Some (Finite (2 ^ 41))) (example_payload (Finite (2 ^ 41))) 739440,
          example_row (Some (Finite (4728779608739021 / 2048)))
            (example_payload (Finite (4728779608739021 / 2048))) 739439]\<rparr>)"
  by (simp add: example_dates_def example_payload_def example_row_def example_entities_def
      big_score_db_def top_rng_def run_eval del: power_numeral)

lemma huge_score_run:
  "backfill_data example_dates top_rng huge_score_db ''2025-07-08'' ''2025-07-07'' ''2025-07-07''
     = (Finished, huge_score_db\<lparr>results_tbl := Some
         [example_row (Some (Finite (31 * 2 ^ 1019))) (example_payload (Finite (31 * 2 ^ 1019))) 739440,
          example_row (Some PosInf) (example_payload PosInf) 739439]\<rparr>)"
  by (simp add: example_dates_def example_payload_def example_row_def example_entities_def
      huge_score_db_def top_rng_def run_eval del: power_numeral)

lemma inserted_row_of_source:
  assumes run: "backfill_data fromisoformat rng d source_date_str start_date_str end_date_str
                  = (Finished, d')"
    and src: "fromisoformat source_date_str = Inr source_date"
    and i: "i < length (inserted d d')"
  shows "\<exists>target_date.
           backfill_row (rng i) target_date
             (source_rows d source_date ! (i mod length (source_rows d source_date)))
           = Inr (inserted d d' ! i)"
proof -
  from i have i': "i < length (rows_of d') - length (rows_of d)" by (simp add: inserted_def)
  then have "inserted d d' ! i = rows_of d' ! (length (rows_of d) + i)"
    by (simp add: inserted_def)
  with inserted_row [OF run src i'] show ?thesis by (simp add: source_rows_def)
qed

lemma zero_score_inserted:
  "inserted zero_score_db (zero_score_db\<lparr>results_tbl := Some
         [example_row (Some (Finite 10)) (example_payload (Finite 10)) 739440,
          example_row (Some (Finite 0)) (example_payload (Finite 0)) 739440,
          example_row (Some (Finite 10)) (example_payload (Finite 10)) 739439,
          example_row None (example_payload (Finite 0)) 739439]\<rparr>)
     = [example_row (Some (Finite 10)) (example_payload (Finite 10)) 739439,
        example_row None (example_payload (Finite 0)) 739439]"
  by (simp add: inserted_def rows_of_def zero_score_db_def)

lemma zero_score_sources:
  "source_rows zero_score_db 739440
     = [example_row (Some (Finite 10)) (example_payload (Finite 10)) 739440,
        example_row (Some (Finite 0)) (example_payload (Finite 0)) 739440]"
  by (simp add: source_rows_def rows_of_def zero_score_db_def example_row_def)

lemma big_score_inserted:
  "inserted big_score_db (big_score_db\<lparr>results_tbl := Some
         [example_row (Some (Finite (2 ^ 41))) (example_payload (Finite (2 ^ 41))) 739440,
          example_row (Some (Finite (4728779608739021 / 2048)))
            (example_payload (Finite (4728779608739021 / 2048))) 739439]\<rparr>)
     = [example_row (Some (Finite (4728779608739021 / 2048)))
          (example_payload (Finite (4728779608739021 / 2048))) 739439]"
  by (simp add: inserted_def rows_of_def big_score_db_def del: power_numeral)

section \<open>Claims on the backfill flow\<close>

text \<open>
  Claim C8. The backfill flow never modifies existing rows: whatever the arguments and
  however the run ends, the entity table after the run is the entity table before it, and
  the result rows after the run are the result rows before it, unchanged and in place,
  followed by the rows the run added.
\<close>

theorem backfill_only_appends_rows:
  "entities_tbl (snd (backfill_data fromisoformat rng d source_date_str start_date_str end_date_str)) = entities_tbl d \<and>
   (\<exists>new. rows_of (snd (backfill_data fromisoformat rng d source_date_str start_date_str end_date_str)) = rows_of d @ new)"
proof -
  from backfill_data_frame [of fromisoformat rng d source_date_str start_date_str end_date_str] obtain new where
    "snd (backfill_data fromisoformat rng d source_date_str start_date_str end_date_str)
       = d\<lparr>results_tbl := map_option (\<lambda>rs. rs @ new) (results_tbl d)\<rparr>" ..
  then show ?thesis by (cases "results_tbl d") (auto simp: rows_of_def)
qed

theorem backfill_only_appends_rows_witness:
  "entities_tbl (snd (backfill_data example_dates zero_rng scenario_db
       ''2025-07-08'' ''2025-06-29'' ''2025-07-07'')) = entities_tbl scenario_db \<and>
   (\<exists>new. rows_of (snd (backfill_data example_dates zero_rng scenario_db
       ''2025-07-08'' ''2025-06-29'' ''2025-07-07'')) = rows_of scenario_db @ new)"
  by (rule backfill_only_appends_rows)

text \<open>
  Claim C3. For every target date that already has at least one result row (for any
  entity), the backfill flow leaves the existing rows unchanged and inserts no new row for
  that date: the rows after the run are the rows before it followed by new rows, none of
  which carries that date. This holds for every date with a row, so for every such date
  of the target range.
\<close>

theorem backfill_skips_populated_date:
  assumes "\<exists>r\<in>set (rows_of d). date r = target_date"
  shows "\<exists>new. rows_of (snd (backfill_data fromisoformat rng d source_date_str start_date_str end_date_str)) = rows_of d @ new \<and>
           (\<forall>r\<in>set new. date r \<noteq> target_date)"
proof (cases "fst (backfill_data fromisoformat rng d source_date_str start_date_str end_date_str) = Finished")
  case True
  then obtain d' where run: "backfill_data fromisoformat rng d source_date_str start_date_str end_date_str = (Finished, d')"
    by (cases "backfill_data fromisoformat rng d source_date_str start_date_str end_date_str") auto
  from new_rows_dates [OF run] obtain new where new: "rows_of d' = rows_of d @ new"
    "\<forall>r\<in>set new. find (\<lambda>x. date x = date r) (rows_of d) = None" by blast
  have "\<forall>r\<in>set new. date r \<noteq> target_date"
  proof
    fix r assume "r \<in> set new"
    with new(2) have "find (\<lambda>x. date x = date r) (rows_of d) = None" by blast
    with assms show "date r \<noteq> target_date" by (auto simp: find_None_iff)
  qed
  with new(1) run show ?thesis by auto
next
  case False
  then have "snd (backfill_data fromisoformat rng d source_date_str start_date_str end_date_str) = d"
    by (auto simp: backfill_data_def Let_def split: sum.splits if_splits)
  then show ?thesis by simp
qed

theorem backfill_skips_populated_date_witness:
  "(\<exists>r\<in>set (rows_of populated_db). date r = 739435) \<and>
   (\<exists>new. rows_of (snd (backfill_data example_dates zero_rng populated_db
       ''2025-07-08'' ''2025-06-29'' ''2025-07-07'')) = rows_of populated_db @ new \<and>
      (\<forall>r\<in>set new. date r \<noteq> 739435))"
proof -
  have h: "\<exists>r\<in>set (rows_of populated_db). date r = 739435"
    by (simp add: rows_of_def example_defs)
  from h backfill_skips_populated_date [OF h] show ?thesis by blast
qed

text \<open>
  Claim C7. If no result row exists for the source date, the backfill flow returns early
  before any write: the run ends as \<open>Aborted\<close> and the database after it is the database
  before it.
\<close>

theorem backfill_aborts_without_source:
  assumes "fromisoformat source_date_str = Inr source_date" "fromisoformat start_date_str = Inr start_date"
    "fromisoformat end_date_str = Inr end_date" "results_tbl d = Some rs"
    "\<forall>r\<in>set rs. date r \<noteq> source_date"
  shows "backfill_data fromisoformat rng d source_date_str start_date_str end_date_str = (Aborted, d)"
proof -
  have "filter (\<lambda>r. date r = source_date) rs = []" using assms(5) by (simp add: filter_empty_conv)
  then show ?thesis using assms(1-4) by (simp add: backfill_data_def query_results_def)
qed

theorem backfill_aborts_without_source_witness:
  "example_dates ''2025-07-07'' = Inr 739439 \<and> example_dates ''2025-06-29'' = Inr 739431 \<and>
   results_tbl scenario_db = Some scenario_rows \<and>
   list_all (\<lambda>r. date r \<noteq> 739439) scenario_rows \<and>
   backfill_data example_dates zero_rng scenario_db ''2025-07-07'' ''2025-06-29'' ''2025-07-07''
     = (Aborted, scenario_db)"
proof -
  have h1: "example_dates ''2025-07-07'' = Inr 739439" by (simp add: example_dates_def)
  have h2: "example_dates ''2025-06-29'' = Inr 739431" by (simp add: example_dates_def)
  have h3: "results_tbl scenario_db = Some scenario_rows" by (simp add: scenario_db_def)
  have h4: "\<forall>r\<in>set scenario_rows. date r \<noteq> 739439"
    by (simp add: scenario_rows_def example_row_def)
  have h4': "list_all (\<lambda>r. date r \<noteq> 739439) scenario_rows"
    by (simp add: scenario_rows_def example_row_def)
  from h1 h2 h3 h4' backfill_aborts_without_source [where fromisoformat = example_dates
      and source_date_str = "''2025-07-07''" and start_date_str = "''2025-06-29''"
      and end_date_str = "''2025-07-07''" and rng = zero_rng, OF h1 h2 h1 h3 h4] show ?thesis by blast
qed

text \<open>
  Claim C1, amended. Let the source date have N rows and let no row of the table carry a
  date of the inclusive target range of D days. Let the end date be before \<open>date.max\<close>,
  let every source score be None or a finite float of magnitude at most \<open>2 ^ 1023\<close>, let
  every source row with a non-zero score have a JSON object as payload, and let every draw
  lie in [-0.05, 0.05]. Then the backfill flow returns normally and inserts exactly N * D
  rows after the existing ones. The i-th inserted row corresponds to source row i mod N:
  its score is None when the source score is None or zero, and otherwise it is a finite
  float within 5 percent of the source score up to the rounding to four decimals and the
  rounding of double arithmetic:
  \<open>|new - source| \<le> (0.05 + 2^-50) * |source| + 0.00005 + 2^-50\<close>.
\<close>

theorem backfill_inserts_N_times_D:
  assumes p1: "fromisoformat source_date_str = Inr source_date"
    and p2: "fromisoformat start_date_str = Inr start_date"
    and p3: "fromisoformat end_date_str = Inr end_date"
    and tbl: "results_tbl d = Some rs"
    and free: "\<forall>r\<in>set rs. date r < start_date \<or> end_date < date r"
    and below: "end_date < date_max"
    and fin: "\<forall>s\<in>set (filter (\<lambda>r. date r = source_date) rs).
                \<forall>x. result_score s = Some x \<longrightarrow> (\<exists>q. x = Finite q \<and> \<bar>q\<bar> \<le> 2 ^ 1023)"
    and objs: "\<forall>s\<in>set (filter (\<lambda>r. date r = source_date) rs).
                 (\<exists>x. result_score s = Some x \<and> float_truthy x) \<longrightarrow> is_object (raw_json s)"
    and rng: "\<forall>k. uniform_range (rng k)"
  shows "\<exists>new.
           backfill_data fromisoformat rng d source_date_str start_date_str end_date_str
             = (if filter (\<lambda>r. date r = source_date) rs = [] then Aborted else Finished,
                d\<lparr>results_tbl := Some (rs @ new)\<rparr>) \<and>
           length new = length (filter (\<lambda>r. date r = source_date) rs)
                          * nat (end_date - start_date + 1) \<and>
           (\<forall>i<length new.
              case result_score (filter (\<lambda>r. date r = source_date) rs
                                   ! (i mod length (filter (\<lambda>r. date r = source_date) rs))) of
                None \<Rightarrow> result_score (new ! i) = None
              | Some x \<Rightarrow>
                  if float_truthy x then
                    (\<exists>q y. x = Finite q \<and> result_score (new ! i) = Some (Finite y) \<and>
                       \<bar>y - q\<bar> \<le> \<bar>q\<bar> * (1 / 20 + 1 / 2 ^ 50) + 1 / 20000 + 1 / 2 ^ 50)
                  else result_score (new ! i) = None)"
proof (cases "filter (\<lambda>r. date r = source_date) rs = []")
  case True
  have "d\<lparr>results_tbl := Some (rs @ [])\<rparr> = d" using tbl by simp
  moreover have "backfill_data fromisoformat rng d source_date_str start_date_str end_date_str
      = (Aborted, d)"
    using p1 p2 p3 tbl True by (simp add: backfill_data_def query_results_def)
  ultimately show ?thesis using True by (intro exI [of _ "[]"]) simp
next
  case False
  let ?srcs = "filter (\<lambda>r. date r = source_date) rs"
  let ?s0 = "\<lparr>db = d, pending = []\<rparr>"
  have npos: "0 < length ?srcs" using False by simp
  have "results_tbl (db ?s0) = Some rs" using tbl by simp
  from backfill_dates_ok [OF this below fin objs rng] obtain s' k' where
    loop: "backfill_dates rng ?srcs end_date start_date (?s0, 0) = Inr (s', k')" by fastforce
  have run: "backfill_data fromisoformat rng d source_date_str start_date_str end_date_str
      = (Finished, db (commit s'))"
    using p1 p2 p3 tbl False loop by (simp add: backfill_data_def query_results_def)
  from backfill_data_Finished [OF run p1] p2 p3 tbl obtain new where
    d': "db (commit s') = d\<lparr>results_tbl := Some (rs @ new)\<rparr>"
    and len: "length new = length ?srcs * length (open_dates rs start_date end_date)"
    and rows: "\<forall>i<length new.
              backfill_row (rng i) (open_dates rs start_date end_date ! (i div length ?srcs))
                (?srcs ! (i mod length ?srcs)) = Inr (new ! i)"
    by auto
  have "open_dates rs start_date end_date = [start_date..end_date]"
    using free by (rule open_dates_all)
  then have len': "length new = length ?srcs * nat (end_date - start_date + 1)"
    using len by simp
  have near: "\<forall>i<length new.
              case result_score (?srcs ! (i mod length ?srcs)) of
                None \<Rightarrow> result_score (new ! i) = None
              | Some x \<Rightarrow>
                  if float_truthy x then
                    (\<exists>q y. x = Finite q \<and> result_score (new ! i) = Some (Finite y) \<and>
                       \<bar>y - q\<bar> \<le> \<bar>q\<bar> * (1 / 20 + 1 / 2 ^ 50) + 1 / 20000 + 1 / 2 ^ 50)
                  else result_score (new ! i) = None"
  proof (intro allI impI)
    fix i assume "i < length new"
    let ?s = "?srcs ! (i mod length ?srcs)"
    have mem: "?s \<in> set ?srcs" using npos by (intro nth_mem) simp
    from rows \<open>i < length new\<close> have
      sc: "new_score_of (result_score ?s) (fadd (Finite 1) (rng i)) = Inr (result_score (new ! i))"
      by (auto dest: backfill_row_score)
    show "case result_score ?s of
                None \<Rightarrow> result_score (new ! i) = None
              | Some x \<Rightarrow>
                  if float_truthy x then
                    (\<exists>q y. x = Finite q \<and> result_score (new ! i) = Some (Finite y) \<and>
                       \<bar>y - q\<bar> \<le> \<bar>q\<bar> * (1 / 20 + 1 / 2 ^ 50) + 1 / 20000 + 1 / 2 ^ 50)
                  else result_score (new ! i) = None"
    proof (cases "result_score ?s")
      case None
      with sc show ?thesis by (simp add: new_score_of_def)
    next
      case (Some x)
      from fin mem Some obtain q where q: "x = Finite q" "\<bar>q\<bar> \<le> 2 ^ 1023" by blast
      show ?thesis
      proof (cases "q = 0")
        case True
        with sc Some q show ?thesis by (simp add: new_score_of_def)
      next
        case False
        from rng uniform_range_Finite obtain uq where
          uq: "rng i = Finite uq" "\<bar>uq\<bar> \<le> double_0_05" by blast
        from new_score_bound [OF uq(2) False q(2)] obtain y where
          "new_score_of (Some (Finite q)) (fadd (Finite 1) (Finite uq)) = Inr (Some (Finite y))"
          "\<bar>y - q\<bar> \<le> \<bar>q\<bar> * (1 / 20 + 1 / 2 ^ 50) + 1 / 20000 + 1 / 2 ^ 50"
          by blast
        with sc Some q uq False show ?thesis by simp
      qed
    qed
  qed
  from run d' len' near False show ?thesis by (intro exI [of _ new]) simp
qed

theorem backfill_inserts_N_times_D_witness:
  "example_dates ''2025-07-08'' = Inr 739440 \<and> example_dates ''2025-06-29'' = Inr 739431 \<and>
   example_dates ''2025-07-07'' = Inr 739439 \<and>
   results_tbl scenario_db = Some scenario_rows \<and>
   list_all (\<lambda>r. date r < 739431 \<or> 739439 < date r) scenario_rows \<and>
   739439 < date_max \<and>
   list_all (\<lambda>s. result_score s = Some (Finite 10) \<or> result_score s = Some (Finite 20))
     (filter (\<lambda>r. date r = 739440) scenario_rows) \<and>
   list_all (\<lambda>s. is_object (raw_json s)) (filter (\<lambda>r. date r = 739440) scenario_rows) \<and>
   (\<forall>k. uniform_range (example_rng k)) \<and>
   (\<exists>new. backfill_data example_dates example_rng scenario_db
              ''2025-07-08'' ''2025-06-29'' ''2025-07-07''
            = (Finished, scenario_db\<lparr>results_tbl := Some (scenario_rows @ new)\<rparr>) \<and>
          length new = 18)"
proof -
  have h1: "example_dates ''2025-07-08'' = Inr 739440" by (simp add: example_dates_def)
  have h2: "example_dates ''2025-06-29'' = Inr 739431" by (simp add: example_dates_def)
  have h3: "example_dates ''2025-07-07'' = Inr 739439" by (simp add: example_dates_def)
  have h4: "results_tbl scenario_db = Some scenario_rows" by (simp add: scenario_db_def)
  have h5: "\<forall>r\<in>set scenario_rows. date r < 739431 \<or> 739439 < date r"
    by (simp add: scenario_rows_def example_row_def)
  have h6: "739439 < date_max" by (simp add: date_max_def)
  have h7: "\<forall>s\<in>set (filter (\<lambda>r. date r = 739440) scenario_rows).
      \<forall>x. result_score s = Some x \<longrightarrow> (\<exists>q. x = Finite q \<and> \<bar>q\<bar> \<le> 2 ^ 1023)"
    by (simp add: scenario_rows_def example_row_def)
  have h8: "\<forall>s\<in>set (filter (\<lambda>r. date r = 739440) scenario_rows).
      (\<exists>x. result_score s = Some x \<and> float_truthy x) \<longrightarrow> is_object (raw_json s)"
    by (simp add: scenario_rows_def example_row_def example_payload_def)
  have h9: "\<forall>k. uniform_range (example_rng k)"
    by (simp add: example_rng_def uniform_range_def double_0_05_def)
  have n: "filter (\<lambda>r. date r = 739440) scenario_rows = scenario_rows"
    by (simp add: scenario_rows_def example_row_def)
  have l: "length scenario_rows = 2" by (simp add: scenario_rows_def)
  from backfill_inserts_N_times_D [where fromisoformat = example_dates
      and source_date_str = "''2025-07-08''" and start_date_str = "''2025-06-29''"
      and end_date_str = "''2025-07-07''", OF h1 h2 h3 h4 h5 h6 h7 h8 h9] obtain new where
    "backfill_data example_dates example_rng scenario_db ''2025-07-08'' ''2025-06-29'' ''2025-07-07''
       = (if filter (\<lambda>r. date r = 739440) scenario_rows = [] then Aborted else Finished,
          scenario_db\<lparr>results_tbl := Some (scenario_rows @ new)\<rparr>)"
    "length new = length (filter (\<lambda>r. date r = 739440) scenario_rows) * nat (739439 - 739431 + 1)"
    by blast
  then have "backfill_data example_dates example_rng scenario_db
              ''2025-07-08'' ''2025-06-29'' ''2025-07-07''
            = (Finished, scenario_db\<lparr>results_tbl := Some (scenario_rows @ new)\<rparr>) \<and>
          length new = 18"
    using n l by (auto simp: scenario_rows_def)
  moreover have "list_all (\<lambda>r. date r < 739431 \<or> 739439 < date r) scenario_rows"
    by (simp add: scenario_rows_def example_row_def)
  moreover have "list_all (\<lambda>s. result_score s = Some (Finite 10) \<or> result_score s = Some (Finite 20))
     (filter (\<lambda>r. date r = 739440) scenario_rows)"
    by (simp add: scenario_rows_def example_row_def)
  moreover have "list_all (\<lambda>s. is_object (raw_json s))
      (filter (\<lambda>r. date r = 739440) scenario_rows)"
    by (simp add: scenario_rows_def example_row_def example_payload_def)
  ultimately show ?thesis using h1 h2 h3 h4 h6 h9 by blast
qed

text \<open>
  Claim C1 as written fails on the code. A source score of \<open>2 ^ -15\<close> is rounded to 0.0,
  which is not within 5 percent of it; a source score of 0.0 is stored as None; a source
  row with a non-zero score and a null payload makes the patch raise \<open>TypeError\<close>, and an
  end date of 9999-12-31 makes the date increment raise \<open>OverflowError\<close>, and in both
  cases nothing is committed. In double arithmetic the draw 0.05 gives the modifier
  1.05 rounded up, so a source score of \<open>2 ^ 41\<close> is stored as 4728779608739021/2048,
  more than 5 percent plus 0.00005 away; and a source score of \<open>31 * 2 ^ 1019\<close> overflows
  to infinity.
\<close>

theorem backfill_score_within_5_percent_counterexample:
  "backfill_data example_dates zero_rng small_score_db ''2025-07-08'' ''2025-07-07'' ''2025-07-07''
     = (Finished, small_score_db\<lparr>results_tbl := Some
         [example_row (Some (Finite (1 / 32768))) (example_payload (Finite (1 / 32768))) 739440,
          example_row (Some (Finite 0)) (example_payload (Finite 0)) 739439]\<rparr>) \<and>
   \<not> ((19 / 20) * (1 / 32768) \<le> (0::rat) \<and> (0::rat) \<le> (21 / 20) * (1 / 32768)) \<and>
   backfill_data example_dates zero_rng zero_score_db ''2025-07-08'' ''2025-07-07'' ''2025-07-07''
     = (Finished, zero_score_db\<lparr>results_tbl := Some
         [example_row (Some (Finite 10)) (example_payload (Finite 10)) 739440,
          example_row (Some (Finite 0)) (example_payload (Finite 0)) 739440,
          example_row (Some (Finite 10)) (example_payload (Finite 10)) 739439,
          example_row None (example_payload (Finite 0)) 739439]\<rparr>) \<and>
   backfill_data example_dates zero_rng null_payload_db ''2025-07-08'' ''2025-07-07'' ''2025-07-07''
     = (Raised TypeError, null_payload_db) \<and>
   backfill_data example_dates zero_rng zero_score_db ''2025-07-08'' ''9999-12-31'' ''9999-12-31''
     = (Raised OverflowError, zero_score_db) \<and>
   uniform_range (top_rng 0) \<and>
   backfill_data example_dates top_rng big_score_db ''2025-07-08'' ''2025-07-07'' ''2025-07-07''
     = (Finished, big_score_db\<lparr>results_tbl := Some
         [example_row (Some (Finite (2 ^ 41))) (example_payload (Finite (2 ^ 41))) 739440,
          example_row (Some (Finite (4728779608739021 / 2048)))
            (example_payload (Finite (4728779608739021 / 2048))) 739439]\<rparr>) \<and>
   \<not> (\<bar>4728779608739021 / 2048 - 2 ^ 41\<bar> \<le> ((2 ^ 41) / 20 + 1 / 20000 :: rat)) \<and>
   backfill_data example_dates top_rng huge_score_db ''2025-07-08'' ''2025-07-07'' ''2025-07-07''
     = (Finished, huge_score_db\<lparr>results_tbl := Some
         [example_row (Some (Finite (31 * 2 ^ 1019))) (example_payload (Finite (31 * 2 ^ 1019))) 739440,
          example_row (Some PosInf) (example_payload PosInf) 739439]\<rparr>)"
proof -
  have "\<not> ((19 / 20) * (1 / 32768) \<le> (0::rat) \<and> (0::rat) \<le> (21 / 20) * (1 / 32768))" by simp
  moreover have "\<not> (\<bar>4728779608739021 / 2048 - 2 ^ 41\<bar> \<le> ((2 ^ 41) / 20 + 1 / 20000 :: rat))"
    by simp
  moreover have "uniform_range (top_rng 0)" by (simp add: uniform_range_def top_rng_def double_0_05_def)
  ultimately show ?thesis
    using small_score_run zero_score_run null_payload_run overflow_run big_score_run huge_score_run
    by blast
qed

text \<open>
  Claim C4, amended. For every row inserted by the backfill flow, the stored payload
  equals the payload of the corresponding source row at every field other than
  \<open>resultScore\<close>; when the new score is not None, the field \<open>resultScore\<close> holds the new
  score, and when the new score is None the payload is the source payload unchanged.
\<close>

theorem backfill_payload_patched:
  assumes run: "backfill_data fromisoformat rng d source_date_str start_date_str end_date_str
                  = (Finished, d')"
    and src: "fromisoformat source_date_str = Inr source_date"
    and i: "i < length (inserted d d')"
  shows "(\<forall>f. f \<noteq> ''resultScore'' \<longrightarrow>
            field (raw_json (inserted d d' ! i)) f
              = field (raw_json (source_rows d source_date
                                   ! (i mod length (source_rows d source_date)))) f) \<and>
         (case result_score (inserted d d' ! i) of
            Some y \<Rightarrow> field (raw_json (inserted d d' ! i)) ''resultScore'' = Some (JNum y)
          | None \<Rightarrow>
              raw_json (inserted d d' ! i)
                = raw_json (source_rows d source_date
                              ! (i mod length (source_rows d source_date))))"
proof -
  from inserted_row_of_source [OF run src i] obtain target_date where
    "backfill_row (rng i) target_date
       (source_rows d source_date ! (i mod length (source_rows d source_date)))
     = Inr (inserted d d' ! i)" ..
  then show ?thesis by (rule backfill_row_payload)
qed

theorem backfill_payload_patched_witness:
  "backfill_data example_dates zero_rng zero_score_db ''2025-07-08'' ''2025-07-07'' ''2025-07-07''
     = (Finished, snd (backfill_data example_dates zero_rng zero_score_db
                         ''2025-07-08'' ''2025-07-07'' ''2025-07-07'')) \<and>
   example_dates ''2025-07-08'' = Inr 739440 \<and>
   0 < length (inserted zero_score_db (snd (backfill_data example_dates zero_rng zero_score_db
                         ''2025-07-08'' ''2025-07-07'' ''2025-07-07''))) \<and>
   field (raw_json (inserted zero_score_db (snd (backfill_data example_dates zero_rng zero_score_db
                         ''2025-07-08'' ''2025-07-07'' ''2025-07-07'')) ! 0)) ''result''
     = Some (JObj [(''name'', JStr ''ESPN'')]) \<and>
   field (raw_json (inserted zero_score_db (snd (backfill_data example_dates zero_rng zero_score_db
                         ''2025-07-08'' ''2025-07-07'' ''2025-07-07'')) ! 0)) ''resultScore''
     = Some (JNum (Finite 10))"
proof -
  let ?d' = "snd (backfill_data example_dates zero_rng zero_score_db
                         ''2025-07-08'' ''2025-07-07'' ''2025-07-07'')"
  have h1: "backfill_data example_dates zero_rng zero_score_db
               ''2025-07-08'' ''2025-07-07'' ''2025-07-07'' = (Finished, ?d')"
    by (simp add: zero_score_run)
  have h2: "example_dates ''2025-07-08'' = Inr 739440" by (simp add: example_dates_def)
  have ins: "inserted zero_score_db ?d'
     = [example_row (Some (Finite 10)) (example_payload (Finite 10)) 739439,
        example_row None (example_payload (Finite 0)) 739439]"
    by (simp add: zero_score_run zero_score_inserted)
  have h3: "0 < length (inserted zero_score_db ?d')" by (simp add: ins)
  from backfill_payload_patched [OF h1 h2 h3] h1 h2 h3 show ?thesis
    by (simp add: ins zero_score_sources example_row_def example_payload_def)
qed

text \<open>
  Claim C4 as written fails on the code: a source row with score 0.0 yields a row whose
  score is None while its payload still carries \<open>resultScore = 0\<close>, so the score field
  of the payload is not the newly computed score.
\<close>

theorem backfill_payload_score_field_counterexample:
  "backfill_data example_dates zero_rng zero_score_db ''2025-07-08'' ''2025-07-07'' ''2025-07-07''
     = (Finished, zero_score_db\<lparr>results_tbl := Some
         [example_row (Some (Finite 10)) (example_payload (Finite 10)) 739440,
          example_row (Some (Finite 0)) (example_payload (Finite 0)) 739440,
          example_row (Some (Finite 10)) (example_payload (Finite 10)) 739439,
          example_row None (example_payload (Finite 0)) 739439]\<rparr>) \<and>
   result_score (example_row None (example_payload (Finite 0)) 739439) = None \<and>
   field (raw_json (example_row None (example_payload (Finite 0)) 739439)) ''resultScore''
     = Some (JNum (Finite 0))"
  using zero_score_run by (simp add: example_row_def example_payload_def)

text \<open>
  Claim C6. For every row inserted by the backfill flow, with every draw in
  [-0.05, 0.05]: the stored score is \<open>round(original * (1 + u), 4)\<close>, computed in
  Python's float arithmetic, for some u in [-0.05, 0.05] when the score of the
  corresponding source row is present and truthy, and None when it is absent or falsy.
\<close>

theorem backfill_score_formula:
  assumes run: "backfill_data fromisoformat rng d source_date_str start_date_str end_date_str
                  = (Finished, d')"
    and src: "fromisoformat source_date_str = Inr source_date"
    and i: "i < length (inserted d d')"
    and rng: "\<forall>k. uniform_range (rng k)"
  shows "\<exists>u. uniform_range u \<and>
           (case result_score (source_rows d source_date
                                 ! (i mod length (source_rows d source_date))) of
              None \<Rightarrow> result_score (inserted d d' ! i) = None
            | Some original \<Rightarrow>
                if float_truthy original then
                  (\<exists>y. py_round (fmul original (fadd (Finite 1) u)) 4 = Inr y \<and>
                       result_score (inserted d d' ! i) = Some y)
                else result_score (inserted d d' ! i) = None)"
proof -
  from inserted_row_of_source [OF run src i] obtain target_date where
    "backfill_row (rng i) target_date
       (source_rows d source_date ! (i mod length (source_rows d source_date)))
     = Inr (inserted d d' ! i)" ..
  then have "new_score_of (result_score (source_rows d source_date
                                      ! (i mod length (source_rows d source_date))))
               (fadd (Finite 1) (rng i)) = Inr (result_score (inserted d d' ! i))"
    by (rule backfill_row_score)
  then have "case result_score (source_rows d source_date
                                 ! (i mod length (source_rows d source_date))) of
              None \<Rightarrow> result_score (inserted d d' ! i) = None
            | Some original \<Rightarrow>
                if float_truthy original then
                  (\<exists>y. py_round (fmul original (fadd (Finite 1) (rng i))) 4 = Inr y \<and>
                       result_score (inserted d d' ! i) = Some y)
                else result_score (inserted d d' ! i) = None"
    by (auto simp: new_score_of_def split: option.splits sum.splits if_splits)
  with rng show ?thesis by blast
qed

theorem backfill_score_formula_witness:
  "backfill_data example_dates top_rng big_score_db ''2025-07-08'' ''2025-07-07'' ''2025-07-07''
     = (Finished, snd (backfill_data example_dates top_rng big_score_db
                         ''2025-07-08'' ''2025-07-07'' ''2025-07-07'')) \<and>
   example_dates ''2025-07-08'' = Inr 739440 \<and>
   0 < length (inserted big_score_db (snd (backfill_data example_dates top_rng big_score_db
                         ''2025-07-08'' ''2025-07-07'' ''2025-07-07''))) \<and>
   (\<forall>k. uniform_range (top_rng k)) \<and>
   result_score (inserted big_score_db (snd (backfill_data example_dates top_rng
          big_score_db ''2025-07-08'' ''2025-07-07'' ''2025-07-07'')) ! 0)
     = Some (Finite (4728779608739021 / 2048)) \<and>
   (\<exists>u. uniform_range u \<and>
      (\<exists>y. py_round (fmul (Finite (2 ^ 41)) (fadd (Finite 1) u)) 4 = Inr y \<and>
           result_score (inserted big_score_db (snd (backfill_data example_dates top_rng
               big_score_db ''2025-07-08'' ''2025-07-07'' ''2025-07-07'')) ! 0) = Some y))"
proof -
  let ?d' = "snd (backfill_data example_dates top_rng big_score_db
                         ''2025-07-08'' ''2025-07-07'' ''2025-07-07'')"
  have h1: "backfill_data example_dates top_rng big_score_db
               ''2025-07-08'' ''2025-07-07'' ''2025-07-07'' = (Finished, ?d')"
    by (simp add: big_score_run del: power_numeral)
  have h2: "example_dates ''2025-07-08'' = Inr 739440" by (simp add: example_dates_def)
  have ins: "inserted big_score_db ?d'
     = [example_row (Some (Finite (4728779608739021 / 2048)))
          (example_payload (Finite (4728779608739021 / 2048))) 739439]"
    by (simp add: big_score_run big_score_inserted del: power_numeral)
  have h3: "0 < length (inserted big_score_db ?d')" by (simp add: ins)
  have h4: "\<forall>k. uniform_range (top_rng k)"
    by (simp add: top_rng_def uniform_range_def double_0_05_def)
  have srcs: "source_rows big_score_db 739440
     = [example_row (Some (Finite (2 ^ 41))) (example_payload (Finite (2 ^ 41))) 739440]"
    by (simp add: source_rows_def rows_of_def big_score_db_def example_row_def del: power_numeral)
  have sc: "result_score (inserted big_score_db ?d' ! 0) = Some (Finite (4728779608739021 / 2048))"
    by (simp add: ins example_row_def)
  from backfill_score_formula [OF h1 h2 h3 h4]
  have "\<exists>u. uniform_range u \<and>
      (\<exists>y. py_round (fmul (Finite (2 ^ 41)) (fadd (Finite 1) u)) 4 = Inr y \<and>
           result_score (inserted big_score_db ?d' ! 0) = Some y)"
    by (simp add: srcs example_row_def del: power_numeral)
  with h1 h2 h3 h4 sc show ?thesis by blast
qed

text \<open>
  Claim C10. For every source row whose score is absent or falsy (None or 0.0), the row
  the backfill flow inserts for it has the score None and a payload equal to the source
  payload, the field \<open>resultScore\<close> included.
\<close>

theorem backfill_falsy_score_unpatched:
  assumes run: "backfill_data fromisoformat rng d source_date_str start_date_str end_date_str
                  = (Finished, d')"
    and src: "fromisoformat source_date_str = Inr source_date"
    and i: "i < length (inserted d d')"
    and falsy: "result_score (source_rows d source_date
                                ! (i mod length (source_rows d source_date))) = None \<or>
                result_score (source_rows d source_date
                                ! (i mod length (source_rows d source_date))) = Some (Finite 0)"
  shows "result_score (inserted d d' ! i) = None \<and>
         raw_json (inserted d d' ! i)
           = raw_json (source_rows d source_date ! (i mod length (source_rows d source_date)))"
proof -
  from inserted_row_of_source [OF run src i] obtain target_date where
    r: "backfill_row (rng i) target_date
       (source_rows d source_date ! (i mod length (source_rows d source_date)))
     = Inr (inserted d d' ! i)" ..
  from backfill_row_score [OF r] falsy have n: "result_score (inserted d d' ! i) = None"
    by (auto simp: new_score_of_def)
  with backfill_row_payload [OF r] show ?thesis by simp
qed

theorem backfill_falsy_score_unpatched_witness:
  "backfill_data example_dates zero_rng zero_score_db ''2025-07-08'' ''2025-07-07'' ''2025-07-07''
     = (Finished, snd (backfill_data example_dates zero_rng zero_score_db
                         ''2025-07-08'' ''2025-07-07'' ''2025-07-07'')) \<and>
   example_dates ''2025-07-08'' = Inr 739440 \<and>
   1 < length (inserted zero_score_db (snd (backfill_data example_dates zero_rng zero_score_db
                         ''2025-07-08'' ''2025-07-07'' ''2025-07-07''))) \<and>
   result_score (source_rows zero_score_db 739440
                   ! (1 mod length (source_rows zero_score_db 739440))) = Some (Finite 0) \<and>
   result_score (inserted zero_score_db (snd (backfill_data example_dates zero_rng
       zero_score_db ''2025-07-08'' ''2025-07-07'' ''2025-07-07'')) ! 1) = None \<and>
   raw_json (inserted zero_score_db (snd (backfill_data example_dates zero_rng
       zero_score_db ''2025-07-08'' ''2025-07-07'' ''2025-07-07'')) ! 1)
     = example_payload (Finite 0)"
proof -
  let ?d' = "snd (backfill_data example_dates zero_rng zero_score_db
                         ''2025-07-08'' ''2025-07-07'' ''2025-07-07'')"
  have h1: "backfill_data example_dates zero_rng zero_score_db
               ''2025-07-08'' ''2025-07-07'' ''2025-07-07'' = (Finished, ?d')"
    by (simp add: zero_score_run)
  have h2: "example_dates ''2025-07-08'' = Inr 739440" by (simp add: example_dates_def)
  have ins: "inserted zero_score_db ?d'
     = [example_row (Some (Finite 10)) (example_payload (Finite 10)) 739439,
        example_row None (example_payload (Finite 0)) 739439]"
    by (simp add: zero_score_run zero_score_inserted)
  have h3: "1 < length (inserted zero_score_db ?d')" by (simp add: ins)
  have h4: "result_score (source_rows zero_score_db 739440
                   ! (1 mod length (source_rows zero_score_db 739440))) = Some (Finite 0)"
    by (simp add: zero_score_sources example_row_def)
  from backfill_falsy_score_unpatched [OF h1 h2 h3 disjI2 [OF h4]] h1 h2 h3 h4 show ?thesis
    by (simp add: zero_score_sources example_row_def)
qed

text \<open>
  Claim C9. Run as the entry point, the script calls \<open>run_backfill\<close>, which opens the
  session and queries at once: on a database without tables the first query raises and
  no table is created, whereas \<open>create_all\<close>, which \<open>main\<close> calls, would create both.
\<close>

theorem run_backfill_missing_tables:
  "run_backfill (Some ''sqlite:///kg.db'') example_dates zero_rng no_tables
     = (Raised NoSuchTable, no_tables) \<and>
   create_all no_tables = \<lparr>entities_tbl = Some [], results_tbl = Some []\<rparr>"
  by (simp add: run_backfill_def str_truthy_def backfill_data_def example_dates_def
      query_results_def no_tables_def create_all_def ents_of_def rows_of_def)

section \<open>Claims on the population flow and the API client\<close>

lemma fold_max_ge: "(x::nat) \<in> set xs \<Longrightarrow> x \<le> fold max xs a"
proof (induction xs arbitrary: a)
  case Nil
  then show ?case by simp
next
  case (Cons y ys)
  have mono: "\<And>b. b \<le> fold max ys b"
  proof -
    fix b show "b \<le> fold max ys b"
      by (induction ys arbitrary: b) (auto intro: order_trans [OF max.cobounded2])
  qed
  from Cons show ?case
  proof (cases "x = y")
    case True
    have "y \<le> max y a" by simp
    also have "\<dots> \<le> fold max ys (max y a)" by (rule mono)
    finally show ?thesis using True by simp
  next
    case False
    with Cons show ?thesis by simp
  qed
qed

lemma fresh_id_gt: "e \<in> set es \<Longrightarrow> ent_id e < fresh_id es"
  using fold_max_ge [of "ent_id e" "map ent_id es" 0] by (simp add: fresh_id_def)

lemma find_append_eq:
  "find P (xs @ ys) = (case find P xs of None \<Rightarrow> find P ys | Some x \<Rightarrow> Some x)"
  by (induction xs) auto

lemma find_Some_mem: "find P xs = Some x \<Longrightarrow> x \<in> set xs \<and> P x"
  by (induction xs) (auto split: if_splits)

lemma map_raise_all:
  "map_raise f xs = Inr ys \<Longrightarrow> \<forall>y\<in>set ys. \<exists>x\<in>set xs. f x = Inr y"
proof (induction xs arbitrary: ys)
  case Nil
  then show ?case by simp
next
  case (Cons x xs)
  then show ?case by (auto split: sum.splits)
qed

lemma result_of_item_entity: "result_of_item eid today item = Inr nr \<Longrightarrow> nr_entity_id nr = eid"
  by (auto simp: result_of_item_def split: sum.splits)

lemma insert_row_entity: "insert_row drv nr = Inr r \<Longrightarrow> entity_id r = nr_entity_id nr"
  by (auto simp: insert_row_def split: sum.splits)

lemma store_items_entity:
  assumes "store_items drv eid today api_data = Inr rows"
  shows "\<forall>r\<in>set rows. entity_id r = eid"
proof -
  from assms obtain items staged where
    st: "map_raise (result_of_item eid today) items = Inr staged"
    and rw: "map_raise (insert_row drv) staged = Inr rows"
    by (auto simp: store_items_def split: sum.splits)
  show ?thesis
  proof
    fix r assume "r \<in> set rows"
    with map_raise_all [OF rw] obtain nr where nr: "nr \<in> set staged" "insert_row drv nr = Inr r"
      by blast
    with map_raise_all [OF st] obtain item where "result_of_item eid today item = Inr nr"
      by blast
    then have "nr_entity_id nr = eid" by (rule result_of_item_entity)
    with insert_row_entity [OF nr(2)] show "entity_id r = eid" by simp
  qed
qed

lemma fetch_requests:
  "\<forall>p\<in>set (snd (fetch_entity_data API_KEY requests_get entity_name)). p_query p = entity_name"
  by (auto simp: fetch_entity_data_def Let_def split: option.splits)

lemma fetch_and_store_frame:
  assumes "fetch_and_store API_KEY drv requests_get today m ent rs (d1, sent) = (eo, d', sent')"
    and "results_tbl d1 = Some rs"
  shows "entities_tbl d' = entities_tbl d1 \<and>
         (\<exists>rows. rows_of d' = rs @ rows \<and> results_tbl d' \<noteq> None \<and>
                 (\<forall>r\<in>set rows. entity_id r = ent_id ent)) \<and>
         (\<exists>reqs. sent' = sent @ reqs \<and> (\<forall>p\<in>set reqs. p_query p = m))"
proof -
  let ?f = "fetch_entity_data API_KEY requests_get m"
  have s: "sent' = sent @ snd ?f"
    using assms(1) by (auto simp: fetch_and_store_def Let_def split: sum.splits if_splits)
  have reqs: "\<exists>reqs. sent' = sent @ reqs \<and> (\<forall>p\<in>set reqs. p_query p = m)"
    using s fetch_requests [of API_KEY requests_get m] by blast
  have "d' = d1 \<or> (\<exists>rows api. store_items drv (ent_id ent) today api = Inr rows \<and>
                      d' = d1\<lparr>results_tbl := Some (rs @ rows)\<rparr>)"
    using assms(1) by (auto simp: fetch_and_store_def Let_def split: sum.splits if_splits)
  then show ?thesis
  proof
    assume "d' = d1"
    then have "entities_tbl d' = entities_tbl d1 \<and>
         (\<exists>rows. rows_of d' = rs @ rows \<and> results_tbl d' \<noteq> None \<and>
                 (\<forall>r\<in>set rows. entity_id r = ent_id ent))"
      using assms(2) by (simp add: rows_of_def)
    with reqs show ?thesis by blast
  next
    assume "\<exists>rows api. store_items drv (ent_id ent) today api = Inr rows \<and>
                      d' = d1\<lparr>results_tbl := Some (rs @ rows)\<rparr>"
    then obtain rows api where st: "store_items drv (ent_id ent) today api = Inr rows"
      and d': "d' = d1\<lparr>results_tbl := Some (rs @ rows)\<rparr>" by blast
    from store_items_entity [OF st] d' have "entities_tbl d' = entities_tbl d1 \<and>
         (\<exists>rows. rows_of d' = rs @ rows \<and> results_tbl d' \<noteq> None \<and>
                 (\<forall>r\<in>set rows. entity_id r = ent_id ent))"
      by (auto simp: rows_of_def)
    with reqs show ?thesis by blast
  qed
qed

lemma get_or_create_spec:
  assumes inv: "skip_inv n e today d"
  shows "\<exists>ent d1. get_or_create m d = Inr (ent, d1) \<and> skip_inv n e today d1 \<and>
           rows_of d1 = rows_of d \<and>
           (m = n \<longrightarrow> ent = e \<and> d1 = d) \<and> (m \<noteq> n \<longrightarrow> ent_id ent \<noteq> ent_id e)"
proof -
  from inv obtain es rs where es: "entities_tbl d = Some es" and rs: "results_tbl d = Some rs"
    and dist: "distinct (map ent_id es)" and fe: "find (\<lambda>x. ent_name x = n) es = Some e"
    and row: "find (\<lambda>r. entity_id r = ent_id e \<and> date r = today) rs \<noteq> None"
    by (auto simp: skip_inv_def ents_of_def rows_of_def)
  from find_Some_mem [OF fe] have e_in: "e \<in> set es" and e_name: "ent_name e = n" by auto
  show ?thesis
  proof (cases "find (\<lambda>x. ent_name x = m) es")
    case (Some ent)
    then have g: "get_or_create m d = Inr (ent, d)" using es by (simp add: get_or_create_def)
    from find_Some_mem [OF Some] have ent_in: "ent \<in> set es" and ent_name: "ent_name ent = m"
      by auto
    have a: "m = n \<longrightarrow> ent = e" using Some fe by auto
    have b: "m \<noteq> n \<longrightarrow> ent_id ent \<noteq> ent_id e"
    proof
      assume mn: "m \<noteq> n"
      show "ent_id ent \<noteq> ent_id e"
      proof
        assume "ent_id ent = ent_id e"
        with dist ent_in e_in have "ent = e" by (auto simp: distinct_map dest: inj_onD)
        with ent_name e_name mn show False by simp
      qed
    qed
    from g inv a b show ?thesis by simp
  next
    case None
    let ?new = "\<lparr>ent_id = fresh_id es, ent_name = m\<rparr>"
    let ?d1 = "d\<lparr>entities_tbl := Some (es @ [?new])\<rparr>"
    have g: "get_or_create m d = Inr (?new, ?d1)" using es None by (simp add: get_or_create_def)
    have mn: "m \<noteq> n" using None fe by auto
    have fresh: "\<forall>x\<in>set es. ent_id x \<noteq> fresh_id es" using fresh_id_gt by fastforce
    have d1: "distinct (map ent_id (es @ [?new]))" using dist fresh by auto
    have f1: "find (\<lambda>x. ent_name x = n) (es @ [?new]) = Some e"
      using fe by (simp add: find_append_eq)
    have inv1: "skip_inv n e today ?d1"
      using rs row d1 f1 by (simp add: skip_inv_def ents_of_def rows_of_def)
    have "ent_id ?new \<noteq> ent_id e" using fresh e_in by auto
    with g inv1 mn show ?thesis by (simp add: rows_of_def)
  qed
qed

lemma filter_append_other:
  "\<forall>r\<in>set rows. entity_id r \<noteq> k \<Longrightarrow>
     filter (\<lambda>r. entity_id r = k) (rs @ rows) = filter (\<lambda>r. entity_id r = k) rs"
  by (induction rows) auto

lemma populate_entity_skip:
  assumes inv: "skip_inv n e today d"
    and step: "populate_entity API_KEY drv requests_get today m (d, sent) = (eo, d', sent')"
  shows "skip_inv n e today d' \<and>
         filter (\<lambda>r. entity_id r = ent_id e) (rows_of d')
           = filter (\<lambda>r. entity_id r = ent_id e) (rows_of d) \<and>
         filter (\<lambda>p. p_query p = n) sent' = filter (\<lambda>p. p_query p = n) sent"
proof -
  from get_or_create_spec [OF inv, of m] obtain ent d1 where
    g: "get_or_create m d = Inr (ent, d1)" and inv1: "skip_inv n e today d1"
    and rows1: "rows_of d1 = rows_of d"
    and same: "m = n \<longrightarrow> ent = e \<and> d1 = d" and other: "m \<noteq> n \<longrightarrow> ent_id ent \<noteq> ent_id e"
    by blast
  from inv1 obtain rs where rs: "results_tbl d1 = Some rs"
    and row: "find (\<lambda>r. entity_id r = ent_id e \<and> date r = today) rs \<noteq> None"
    by (auto simp: skip_inv_def rows_of_def)
  have r1: "rows_of d1 = rs" using rs by (simp add: rows_of_def)
  show ?thesis
  proof (cases "find (\<lambda>r. entity_id r = ent_id ent \<and> date r = today) rs")
    case (Some existing_result)
    with step g rs have "d' = d1" "sent' = sent" by (simp_all add: populate_entity_def)
    with inv1 rows1 show ?thesis by simp
  next
    case None
    with row have ne: "ent \<noteq> e" by auto
    with same have mn: "m \<noteq> n" by auto
    with other have ids: "ent_id ent \<noteq> ent_id e" by simp
    from step g rs None have
      fs: "fetch_and_store API_KEY drv requests_get today m ent rs (d1, sent) = (eo, d', sent')"
      by (simp add: populate_entity_def)
    from fetch_and_store_frame [OF fs rs] obtain rows reqs where
      ents: "entities_tbl d' = entities_tbl d1"
      and rows: "rows_of d' = rs @ rows" "results_tbl d' \<noteq> None"
        "\<forall>r\<in>set rows. entity_id r = ent_id ent"
      and reqs: "sent' = sent @ reqs" "\<forall>p\<in>set reqs. p_query p = m"
      by blast
    have keep: "filter (\<lambda>r. entity_id r = ent_id e) (rows_of d')
           = filter (\<lambda>r. entity_id r = ent_id e) (rows_of d)"
      using rows(1,3) ids r1 rows1 by (simp add: filter_append_other)
    have row': "find (\<lambda>r. entity_id r = ent_id e \<and> date r = today) (rows_of d') \<noteq> None"
      using row rows(1) by (auto simp: find_append_eq)
    have inv': "skip_inv n e today d'"
      using inv1 ents rows(2) row' by (simp add: skip_inv_def ents_of_def)
    have "filter (\<lambda>p. p_query p = n) sent' = filter (\<lambda>p. p_query p = n) sent"
      using reqs mn by (auto simp: filter_empty_conv)
    with inv' keep show ?thesis by simp
  qed
qed

lemma populate_skip:
  "skip_inv n e today d \<Longrightarrow>
   populate API_KEY drv requests_get today names (d, sent) = (out, d', sent') \<Longrightarrow>
     filter (\<lambda>r. entity_id r = ent_id e) (rows_of d')
       = filter (\<lambda>r. entity_id r = ent_id e) (rows_of d) \<and>
     filter (\<lambda>p. p_query p = n) sent' = filter (\<lambda>p. p_query p = n) sent"
proof (induction names arbitrary: d sent)
  case Nil
  then show ?case by simp
next
  case (Cons m names)
  obtain eo d1 sent1 where
    step: "populate_entity API_KEY drv requests_get today m (d, sent) = (eo, d1, sent1)"
    by (cases "populate_entity API_KEY drv requests_get today m (d, sent)") auto
  from populate_entity_skip [OF Cons.prems(1) step] have inv1: "skip_inv n e today d1"
    and keep: "filter (\<lambda>r. entity_id r = ent_id e) (rows_of d1)
           = filter (\<lambda>r. entity_id r = ent_id e) (rows_of d)"
      "filter (\<lambda>p. p_query p = n) sent1 = filter (\<lambda>p. p_query p = n) sent"
    by auto
  show ?case
  proof (cases eo)
    case None
    with Cons.prems(2) step have
      "populate API_KEY drv requests_get today names (d1, sent1) = (out, d', sent')" by simp
    from Cons.IH [OF inv1 this] keep show ?thesis by simp
  next
    case (Some err)
    with Cons.prems(2) step have "d' = d1" "sent' = sent1" by simp_all
    with keep show ?thesis by simp
  qed
qed

text \<open>
  Claim C2. Let the entity table have distinct ids, let the lookup by name find the
  entity \<open>e\<close>, and let \<open>e\<close> have at least one result row for the current date. Then a run
  of the population flow on that date, however it ends, inserts no result row for \<open>e\<close>
  (the rows of \<open>e\<close> after the run are its rows before it) and issues no request whose
  query is the name of \<open>e\<close>.
\<close>

theorem population_skips_entity_with_result_today:
  assumes ids: "distinct (map ent_id (ents_of d))"
    and ent: "find (\<lambda>x. ent_name x = entity_name) (ents_of d) = Some e"
    and row: "\<exists>r\<in>set (rows_of d). entity_id r = ent_id e \<and> date r = today"
  shows "filter (\<lambda>r. entity_id r = ent_id e)
           (rows_of (fst (snd (main API_KEY DATABASE_URL drv requests_get today d))))
           = filter (\<lambda>r. entity_id r = ent_id e) (rows_of d) \<and>
         (\<forall>p\<in>set (snd (snd (main API_KEY DATABASE_URL drv requests_get today d))).
            p_query p \<noteq> entity_name)"
proof (cases "str_truthy API_KEY \<and> str_truthy DATABASE_URL")
  case False
  then show ?thesis by (auto simp: main_def)
next
  case True
  from ent have et: "entities_tbl d \<noteq> None" by (cases "entities_tbl d") (auto simp: ents_of_def)
  from row have rt: "results_tbl d \<noteq> None" by (cases "results_tbl d") (auto simp: rows_of_def)
  have ca: "create_all d = d" using et rt by (auto simp: create_all_def ents_of_def rows_of_def)
  have fr: "find (\<lambda>r. entity_id r = ent_id e \<and> date r = today) (rows_of d) \<noteq> None"
    using row by (auto simp: find_None_iff)
  have inv: "skip_inv entity_name e today d"
    using et rt ids ent fr by (simp add: skip_inv_def)
  obtain out d' sent' where
    p: "populate API_KEY drv requests_get today ENTITIES (d, []) = (out, d', sent')"
    by (cases "populate API_KEY drv requests_get today ENTITIES (d, [])") auto
  from populate_skip [OF inv p] have
    k: "filter (\<lambda>r. entity_id r = ent_id e) (rows_of d')
         = filter (\<lambda>r. entity_id r = ent_id e) (rows_of d)"
    and s: "filter (\<lambda>p. p_query p = entity_name) sent' = []" by auto
  have m: "main API_KEY DATABASE_URL drv requests_get today d = (out, d', sent')"
    using True ca p by (simp add: main_def)
  from s have "\<forall>p\<in>set sent'. p_query p \<noteq> entity_name" by (simp add: filter_empty_conv)
  with k m show ?thesis by simp
qed

theorem population_skips_entity_with_result_today_witness:
  "distinct (map ent_id (ents_of scenario_db)) \<and>
   find (\<lambda>x. ent_name x = ''ESPN'') (ents_of scenario_db) = Some \<lparr>ent_id = 1, ent_name = ''ESPN''\<rparr> \<and>
   (\<exists>r\<in>set (rows_of scenario_db). entity_id r = 1 \<and> date r = 739440) \<and>
   filter (\<lambda>r. entity_id r = 1)
     (rows_of (fst (snd (main (Some ''key'') (Some ''sqlite:///kg.db'') example_driver
                            timeout_get 739440 scenario_db))))
     = scenario_rows \<and>
   list_all (\<lambda>p. p_query p \<noteq> ''ESPN'')
     (snd (snd (main (Some ''key'') (Some ''sqlite:///kg.db'') example_driver
                  timeout_get 739440 scenario_db)))"
proof -
  let ?e = "\<lparr>ent_id = 1, ent_name = ''ESPN''\<rparr>"
  have h1: "distinct (map ent_id (ents_of scenario_db))"
    by (simp add: ents_of_def scenario_db_def example_entities_def)
  have h2: "find (\<lambda>x. ent_name x = ''ESPN'') (ents_of scenario_db) = Some ?e"
    by (simp add: ents_of_def scenario_db_def example_entities_def)
  have h3: "\<exists>r\<in>set (rows_of scenario_db). entity_id r = ent_id ?e \<and> date r = 739440"
    by (simp add: rows_of_def scenario_db_def scenario_rows_def example_row_def)
  have f: "filter (\<lambda>r. entity_id r = 1) (rows_of scenario_db) = scenario_rows"
    by (simp add: rows_of_def scenario_db_def scenario_rows_def example_row_def)
  from population_skips_entity_with_result_today [OF h1 h2 h3,
      of "Some ''key''" "Some ''sqlite:///kg.db''" example_driver timeout_get]
  have "filter (\<lambda>r. entity_id r = 1)
     (rows_of (fst (snd (main (Some ''key'') (Some ''sqlite:///kg.db'') example_driver
                            timeout_get 739440 scenario_db))))
     = scenario_rows \<and>
   list_all (\<lambda>p. p_query p \<noteq> ''ESPN'')
     (snd (snd (main (Some ''key'') (Some ''sqlite:///kg.db'') example_driver
                  timeout_get 739440 scenario_db)))"
    using f by (simp add: list_all_iff)
  with h1 h2 h3 show ?thesis by simp
qed

text \<open>
  Claim C5. For every entity name, \<open>fetch_entity_data\<close> never lets a
  \<open>RequestException\<close> leave it: when \<open>requests.get\<close> raises one (a transport error) or the
  response has a 4xx or 5xx status, the result is None; and with a missing or empty API
  key the result is None and no request is issued.
\<close>

theorem fetch_entity_data_converts_request_errors:
  "(\<not> str_truthy API_KEY \<longrightarrow>
      fetch_entity_data API_KEY requests_get entity_name = (Inr JNull, [])) \<and>
   (\<forall>x. fst (fetch_entity_data API_KEY requests_get entity_name) \<noteq> Inl (RequestException x)) \<and>
   (\<forall>k x. API_KEY = Some k \<and> k \<noteq> [] \<and>
      requests_get \<lparr>p_query = entity_name, p_key = k, p_limit = 3\<rparr> = Inl (RequestException x)
      \<longrightarrow> fst (fetch_entity_data API_KEY requests_get entity_name) = Inr JNull) \<and>
   (\<forall>k r. API_KEY = Some k \<and> k \<noteq> [] \<and>
      requests_get \<lparr>p_query = entity_name, p_key = k, p_limit = 3\<rparr> = Inr r \<and>
      400 \<le> status_code r \<and> status_code r < 600
      \<longrightarrow> fst (fetch_entity_data API_KEY requests_get entity_name) = Inr JNull)"
  by (auto simp: fetch_entity_data_def str_truthy_def Let_def raise_for_status_def
      response_json_def split: option.splits sum.splits py_error.splits)

theorem fetch_entity_data_converts_request_errors_witness:
  "fetch_entity_data None timeout_get ''ESPN'' = (Inr JNull, []) \<and>
   fst (fetch_entity_data (Some ''key'') timeout_get ''ESPN'') = Inr JNull \<and>
   fst (fetch_entity_data (Some ''key'') error_500_get ''ESPN'') = Inr JNull"
proof -
  have a: "fetch_entity_data None timeout_get ''ESPN'' = (Inr JNull, [])"
    using fetch_entity_data_converts_request_errors [of None timeout_get "''ESPN''"]
    by (simp add: str_truthy_def)
  have t: "timeout_get \<lparr>p_query = ''ESPN'', p_key = ''key'', p_limit = 3\<rparr>
             = Inl (RequestException Timeout)"
    by (simp add: timeout_get_def)
  have b: "fst (fetch_entity_data (Some ''key'') timeout_get ''ESPN'') = Inr JNull"
    using fetch_entity_data_converts_request_errors [of "Some ''key''" timeout_get "''ESPN''"] t
    by blast
  have r: "error_500_get \<lparr>p_query = ''ESPN'', p_key = ''key'', p_limit = 3\<rparr>
             = Inr \<lparr>status_code = 500, body = None\<rparr>"
    by (simp add: error_500_get_def)
  have c: "fst (fetch_entity_data (Some ''key'') error_500_get ''ESPN'') = Inr JNull"
    using fetch_entity_data_converts_request_errors [of "Some ''key''" error_500_get "''ESPN''"] r
    by (auto simp: error_500_get_def)
  from a b c show ?thesis by simp
qed

end
